theory Spec2Isabelle
  imports Complex_Main
begin

section \<open>Numeric model\<close>

text \<open>
  The program under study is \<^verbatim>\<open>scripts/mesh_preprocess.py\<close>: normalisation of mesh
  vertices, quantisation to integer bins, reconstruction and error analysis, all written
  with numpy arrays.

  Conventions of the embedding:
  \<^item> a numpy array of shape \<open>(N, 3)\<close> is a list of \<open>vec3\<close> rows;
  \<^item> the vertex buffer that is read from a file holds finite \<^verbatim>\<open>float64\<close> values, written as
    \<open>real\<close>; every value the program computes from it is an \<open>npfloat\<close>, a finite value or
    one of the three special values that numpy produces silently (it warns, it does not
    raise); signed zeros are not represented;
  \<^item> every function takes the arithmetic \<open>ar\<close> in which the program text is read.
    \<open>Machine\<close> is what runs: each \<^verbatim>\<open>float64\<close> operation rounds its exact result to the
    nearest binary64 value (ties to even, overflow to infinity), and \<^verbatim>\<open>astype(np.int64)\<close>
    has the range of 64-bit integers. \<open>Ideal\<close> is the same program text over exact reals
    and unbounded integers, the reading in which the formulas of a specification are meant;
  \<^item> a Python \<^verbatim>\<open>int\<close> is an \<open>int\<close>; an element of an \<^verbatim>\<open>int64\<close> array is an \<open>int\<close> that the
    cast has put in range;
  \<^item> an exception is the \<open>Inl\<close> branch of a sum.
\<close>

datatype error = ValueError | KeyError

datatype 'a vec3 = Vec3 (vx: 'a) (vy: 'a) (vz: 'a)

datatype axis = AxisX | AxisY | AxisZ

fun coord :: "axis \<Rightarrow> 'a vec3 \<Rightarrow> 'a" where
  "coord AxisX v = vx v"
| "coord AxisY v = vy v"
| "coord AxisZ v = vz v"

text \<open>Elementwise binary operation on two rows (numpy broadcasting of two length-3 rows).\<close>

fun vec3_zip :: "('a \<Rightarrow> 'b \<Rightarrow> 'c) \<Rightarrow> 'a vec3 \<Rightarrow> 'b vec3 \<Rightarrow> 'c vec3" where
  "vec3_zip f (Vec3 a b c) (Vec3 d e g) = Vec3 (f a d) (f b e) (f c g)"

datatype npfloat = Finite real | PosInf | NegInf | NaN

datatype arith = Ideal | Machine

subsection \<open>Rounding to binary64\<close>

text \<open>
  A binary64 value is \<^verbatim>\<open>m * 2^k\<close> with \<^verbatim>\<open>|m| < 2^53\<close> and \<^verbatim>\<open>k >= -1074\<close>. A non-zero real
  \<open>x\<close> with \<^verbatim>\<open>2^e <= |x| < 2^(e+1)\<close> is rounded on the grid of spacing \<^verbatim>\<open>2^(e-52)\<close> (the
  spacing \<^verbatim>\<open>2^-1074\<close> of the subnormal numbers when \<^verbatim>\<open>e < -1022\<close>), to the nearest grid point
  and, on a tie, to the even multiple; a result of magnitude \<^verbatim>\<open>2^1024\<close> or more is an
  infinity.
\<close>

definition pow2 :: "int \<Rightarrow> real" where
  "pow2 k = (if 0 \<le> k then 2 ^ nat k else 1 / 2 ^ nat (- k))"

text \<open>The exponent of a positive real: the integer \<open>e\<close> with \<^verbatim>\<open>2^e <= x < 2^(e+1)\<close>.\<close>

function ilog2 :: "real \<Rightarrow> int" where
  "ilog2 x =
     (if x \<le> 0 then 0
      else if x < 1 then ilog2 (2 * x) - 1
      else if 2 \<le> x then ilog2 (x / 2) + 1
      else 0)"
  by pat_completeness auto
termination
proof (relation "measure (\<lambda>x. nat \<bar>\<lfloor>log 2 x\<rfloor>\<bar>)")
  show "wf (measure (\<lambda>x. nat \<bar>\<lfloor>log 2 x\<rfloor>\<bar>))" by simp
next
  fix x :: real
  assume "\<not> x \<le> 0" "x < 1"
  then have pos: "0 < x" and lt: "log 2 x < 0" by simp_all
  have "log 2 (2 * x) = 1 + log 2 x" using pos by (simp add: log_mult)
  then have "\<lfloor>log 2 (2 * x)\<rfloor> = 1 + \<lfloor>log 2 x\<rfloor>" by simp
  moreover have "\<lfloor>log 2 x\<rfloor> \<le> - 1" using lt by (simp add: floor_le_iff)
  ultimately show "(2 * x, x) \<in> measure (\<lambda>x. nat \<bar>\<lfloor>log 2 x\<rfloor>\<bar>)" by simp
next
  fix x :: real
  assume "\<not> x \<le> 0" "\<not> x < 1" "2 \<le> x"
  then have pos: "0 < x" by simp
  have ge: "1 \<le> log 2 x" using \<open>2 \<le> x\<close> by (simp add: le_log_iff)
  have "log 2 (x / 2) = log 2 x - 1" using pos by (simp add: log_divide)
  then have "\<lfloor>log 2 (x / 2)\<rfloor> = \<lfloor>log 2 x\<rfloor> - 1" by simp
  moreover have "1 \<le> \<lfloor>log 2 x\<rfloor>" using ge by (simp add: le_floor_iff)
  ultimately show "(x / 2, x) \<in> measure (\<lambda>x. nat \<bar>\<lfloor>log 2 x\<rfloor>\<bar>)" by simp
qed

declare ilog2.simps [simp del]

definition round_even :: "real \<Rightarrow> int" where
  "round_even x =
     (let f = \<lfloor>x\<rfloor>; r = x - of_int f
      in if r < 1 / 2 then f
         else if 1 / 2 < r then f + 1
         else if even f then f else f + 1)"

definition binary64_round :: "real \<Rightarrow> npfloat" where
  "binary64_round x =
     (if x = 0 then Finite 0
      else
        (let e = max (ilog2 \<bar>x\<bar>) (- 1022);
             ulp = pow2 (e - 52);
             r = of_int (round_even (x / ulp)) * ulp
         in if 2 ^ 1024 \<le> \<bar>r\<bar> then (if 0 < x then PosInf else NegInf) else Finite r))"

text \<open>The result of one \<^verbatim>\<open>float64\<close> operation whose exact value is \<open>x\<close>.\<close>

fun rnd :: "arith \<Rightarrow> real \<Rightarrow> npfloat" where
  "rnd Ideal x = Finite x"
| "rnd Machine x = binary64_round x"

subsection \<open>Operations on floats\<close>

fun np_neg :: "npfloat \<Rightarrow> npfloat" where
  "np_neg (Finite a) = Finite (- a)"
| "np_neg PosInf = NegInf"
| "np_neg NegInf = PosInf"
| "np_neg NaN = NaN"

fun np_abs :: "npfloat \<Rightarrow> npfloat" where
  "np_abs (Finite a) = Finite \<bar>a\<bar>"
| "np_abs PosInf = PosInf"
| "np_abs NegInf = PosInf"
| "np_abs NaN = NaN"

fun np_add :: "arith \<Rightarrow> npfloat \<Rightarrow> npfloat \<Rightarrow> npfloat" where
  "np_add ar (Finite a) (Finite b) = rnd ar (a + b)"
| "np_add ar NaN _ = NaN"
| "np_add ar _ NaN = NaN"
| "np_add ar PosInf NegInf = NaN"
| "np_add ar NegInf PosInf = NaN"
| "np_add ar PosInf _ = PosInf"
| "np_add ar _ PosInf = PosInf"
| "np_add ar NegInf _ = NegInf"
| "np_add ar _ NegInf = NegInf"

definition np_sub :: "arith \<Rightarrow> npfloat \<Rightarrow> npfloat \<Rightarrow> npfloat" where
  "np_sub ar a b = np_add ar a (np_neg b)"

text \<open>The sign of an infinity scaled by a finite factor; \<open>inf * 0\<close> is \<open>nan\<close>.\<close>

definition inf_times :: "npfloat \<Rightarrow> real \<Rightarrow> npfloat" where
  "inf_times i b = (if b > 0 then i else if b < 0 then np_neg i else NaN)"

fun np_mul :: "arith \<Rightarrow> npfloat \<Rightarrow> npfloat \<Rightarrow> npfloat" where
  "np_mul ar (Finite a) (Finite b) = rnd ar (a * b)"
| "np_mul ar NaN _ = NaN"
| "np_mul ar _ NaN = NaN"
| "np_mul ar (Finite a) i = inf_times i a"
| "np_mul ar i (Finite b) = inf_times i b"
| "np_mul ar PosInf i = i"
| "np_mul ar NegInf i = np_neg i"

fun np_div :: "arith \<Rightarrow> npfloat \<Rightarrow> npfloat \<Rightarrow> npfloat" where
  "np_div ar (Finite a) (Finite b) =
     (if b \<noteq> 0 then rnd ar (a / b)
      else if a > 0 then PosInf else if a < 0 then NegInf else NaN)"
| "np_div ar NaN _ = NaN"
| "np_div ar _ NaN = NaN"
| "np_div ar (Finite a) PosInf = Finite 0"
| "np_div ar (Finite a) NegInf = Finite 0"
| "np_div ar PosInf (Finite b) = (if b \<ge> 0 then PosInf else NegInf)"
| "np_div ar NegInf (Finite b) = (if b \<ge> 0 then NegInf else PosInf)"
| "np_div ar PosInf PosInf = NaN"
| "np_div ar PosInf NegInf = NaN"
| "np_div ar NegInf PosInf = NaN"
| "np_div ar NegInf NegInf = NaN"

fun np_sqrt :: "arith \<Rightarrow> npfloat \<Rightarrow> npfloat" where
  "np_sqrt ar (Finite a) = (if a < 0 then NaN else rnd ar (sqrt a))"
| "np_sqrt ar PosInf = PosInf"
| "np_sqrt ar NegInf = NaN"
| "np_sqrt ar NaN = NaN"

text \<open>\<^verbatim>\<open>np.floor\<close> is exact: the floor of a binary64 value is a binary64 value.\<close>

fun np_floor :: "npfloat \<Rightarrow> npfloat" where
  "np_floor (Finite a) = Finite (of_int \<lfloor>a\<rfloor>)"
| "np_floor PosInf = PosInf"
| "np_floor NegInf = NegInf"
| "np_floor NaN = NaN"

text \<open>The maximum of two floats as \<^verbatim>\<open>max()\<close> of an array takes it: \<open>nan\<close> wins.\<close>

fun np_maximum :: "npfloat \<Rightarrow> npfloat \<Rightarrow> npfloat" where
  "np_maximum (Finite a) (Finite b) = Finite (max a b)"
| "np_maximum NaN _ = NaN"
| "np_maximum _ NaN = NaN"
| "np_maximum PosInf _ = PosInf"
| "np_maximum _ PosInf = PosInf"
| "np_maximum NegInf b = b"
| "np_maximum a NegInf = a"

text \<open>
  \<^verbatim>\<open>.astype(np.int64)\<close> of a float that holds an integer. An infinity or \<open>nan\<close> is
  converted to \<^verbatim>\<open>-2^63\<close>, and so is, in the machine arithmetic, a value outside
  \<^verbatim>\<open>[-2^63, 2^63)\<close> (the result of the x86-64 conversion; numpy warns "invalid value
  encountered in cast").
\<close>

fun astype_int64 :: "arith \<Rightarrow> npfloat \<Rightarrow> int" where
  "astype_int64 Ideal (Finite a) = \<lfloor>a\<rfloor>"
| "astype_int64 Machine (Finite a) =
     (if - (2 ^ 63) \<le> \<lfloor>a\<rfloor> \<and> \<lfloor>a\<rfloor> < 2 ^ 63 then \<lfloor>a\<rfloor> else - (2 ^ 63))"
| "astype_int64 ar _ = - (2 ^ 63)"

text \<open>\<^verbatim>\<open>np.sum\<close> and \<^verbatim>\<open>np.mean\<close> of a one-dimensional array, accumulated in index order.
  The count is converted exactly. The mean of an empty array is \<open>0.0 / 0\<close>, that is \<open>nan\<close>
  (numpy warns "Mean of empty slice" and returns).\<close>

definition np_sum :: "arith \<Rightarrow> npfloat list \<Rightarrow> npfloat" where
  "np_sum ar xs = foldl (np_add ar) (Finite 0) xs"

definition np_mean :: "arith \<Rightarrow> npfloat list \<Rightarrow> npfloat" where
  "np_mean ar xs = np_div ar (np_sum ar xs) (Finite (real (length xs)))"

definition np_mean_axis0 :: "arith \<Rightarrow> npfloat vec3 list \<Rightarrow> npfloat vec3" where
  "np_mean_axis0 ar rows =
     Vec3 (np_mean ar (map vx rows)) (np_mean ar (map vy rows)) (np_mean ar (map vz rows))"

text \<open>A buffer of finite floats seen as a buffer of floats.\<close>

definition to_npfloat :: "real vec3 list \<Rightarrow> npfloat vec3 list" where
  "to_npfloat v = map (map_vec3 Finite) v"

section \<open>Quantizer\<close>

text \<open>
  \<^verbatim>\<open>
  def quantize(normalized, bins=1024):
      n = int(bins)
      q = np.floor(normalized * (n - 1)).astype(np.int64)
      q = np.clip(q, 0, n - 1)
      return q

  def dequantize(q, bins=1024):
      n = int(bins)
      return q.astype(np.float64) / (n - 1)
  \<close>
  \<^verbatim>\<open>np.clip(a, lo, hi)\<close> is \<^verbatim>\<open>np.minimum(hi, np.maximum(a, lo))\<close>, also when \<open>lo > hi\<close>.
  The Python integer \<open>n - 1\<close> and the \<^verbatim>\<open>int64\<close> values \<open>q\<close> are converted to \<^verbatim>\<open>float64\<close>
  before the multiplication and the division, which rounds them when they exceed \<^verbatim>\<open>2^53\<close>.
  A bin count of magnitude \<^verbatim>\<open>2^1024\<close> or more, which Python refuses to convert, is outside
  the model: the conversion is written as a rounding to infinity.
\<close>

definition np_clip :: "int \<Rightarrow> int \<Rightarrow> int \<Rightarrow> int" where
  "np_clip q lo hi = min hi (max q lo)"

definition quantize_elem :: "arith \<Rightarrow> npfloat \<Rightarrow> int \<Rightarrow> int" where
  "quantize_elem ar x bins =
     (let n = bins;
          q = astype_int64 ar (np_floor (np_mul ar x (rnd ar (of_int (n - 1)))))
      in np_clip q 0 (n - 1))"

definition quantize :: "arith \<Rightarrow> npfloat vec3 list \<Rightarrow> int \<Rightarrow> int vec3 list" where
  "quantize ar normalized bins = map (map_vec3 (\<lambda>x. quantize_elem ar x bins)) normalized"

definition dequantize_elem :: "arith \<Rightarrow> int \<Rightarrow> int \<Rightarrow> npfloat" where
  "dequantize_elem ar q bins =
     (let n = bins in np_div ar (rnd ar (of_int q)) (rnd ar (of_int (n - 1))))"

definition dequantize :: "arith \<Rightarrow> int vec3 list \<Rightarrow> int \<Rightarrow> npfloat vec3 list" where
  "dequantize ar q bins = map (map_vec3 (\<lambda>c. dequantize_elem ar c bins)) q"

text \<open>The encoder as the specification words it: the floor of \<open>value * (bins - 1)\<close>,
  clamped to \<open>[0, bins - 1]\<close>. The product is the one of the arithmetic; the formula is
  meant for a finite product, and \<open>product_fits_int64\<close> says that its floor is a 64-bit
  integer.\<close>

definition clamp_spec :: "int \<Rightarrow> int \<Rightarrow> int \<Rightarrow> int" where
  "clamp_spec lo hi q = (if q < lo then lo else if hi < q then hi else q)"

definition encode_spec :: "arith \<Rightarrow> npfloat \<Rightarrow> int \<Rightarrow> int" where
  "encode_spec ar x bins =
     (case np_mul ar x (rnd ar (of_int (bins - 1))) of
        Finite p \<Rightarrow> clamp_spec 0 (bins - 1) \<lfloor>p\<rfloor>
      | _ \<Rightarrow> 0)"

definition product_fits_int64 :: "arith \<Rightarrow> int \<Rightarrow> npfloat \<Rightarrow> bool" where
  "product_fits_int64 ar bins x =
     (case np_mul ar x (rnd ar (of_int (bins - 1))) of
        Finite p \<Rightarrow> - (2 ^ 63) \<le> \<lfloor>p\<rfloor> \<and> \<lfloor>p\<rfloor> < 2 ^ 63
      | _ \<Rightarrow> False)"

section \<open>Normalization strategies\<close>

text \<open>
  Reductions. \<^verbatim>\<open>vertices.min(axis=0)\<close>, \<^verbatim>\<open>vertices.max(axis=0)\<close> and \<^verbatim>\<open>dists.max()\<close> raise
  \<^verbatim>\<open>ValueError\<close> on an array with no rows ("zero-size array to reduction operation").
  The minimum and the maximum of finite values are exact.
\<close>

fun amin_axis0 :: "real vec3 list \<Rightarrow> error + real vec3" where
  "amin_axis0 [] = Inl ValueError"
| "amin_axis0 (v # vs) = Inr (fold (vec3_zip min) vs v)"

fun amax_axis0 :: "real vec3 list \<Rightarrow> error + real vec3" where
  "amax_axis0 [] = Inl ValueError"
| "amax_axis0 (v # vs) = Inr (fold (vec3_zip max) vs v)"

fun amax :: "npfloat list \<Rightarrow> error + npfloat" where
  "amax [] = Inl ValueError"
| "amax (x # xs) = Inr (fold np_maximum xs x)"

text \<open>\<^verbatim>\<open>np.linalg.norm(shifted, axis=1)\<close> on one row: the square root of the sum of the
  squares.\<close>

fun norm3 :: "arith \<Rightarrow> npfloat vec3 \<Rightarrow> npfloat" where
  "norm3 ar (Vec3 a b c) = np_sqrt ar (np_sum ar [np_mul ar a a, np_mul ar b b, np_mul ar c c])"

text \<open>The \<^verbatim>\<open>meta\<close> dictionary: each strategy stores its own two keys.\<close>

datatype meta =
    MinMaxMeta (meta_vmin: "real vec3") (meta_vmax: "real vec3")
  | SphereMeta (meta_centroid: "npfloat vec3") (meta_maxd: npfloat)

text \<open>
  \<^verbatim>\<open>
  def normalize_minmax(vertices):
      vmin = vertices.min(axis=0)
      vmax = vertices.max(axis=0)
      denom = vmax - vmin
      # avoid divide by zero
      denom[denom == 0] = 1.0
      normalized = (vertices - vmin) / denom
      meta = {'vmin': vmin, 'vmax': vmax}
      return normalized, meta

  def denormalize_minmax(normalized, meta):
      vmin = meta['vmin']
      vmax = meta['vmax']
      return normalized * (vmax - vmin) + vmin
  \<close>
\<close>

definition fix_denom :: "npfloat vec3 \<Rightarrow> npfloat vec3" where
  "fix_denom denom = map_vec3 (\<lambda>d. if d = Finite 0 then Finite 1 else d) denom"

definition minmax_denom :: "arith \<Rightarrow> real vec3 \<Rightarrow> real vec3 \<Rightarrow> npfloat vec3" where
  "minmax_denom ar vmin vmax =
     fix_denom (vec3_zip (np_sub ar) (map_vec3 Finite vmax) (map_vec3 Finite vmin))"

definition normalize_minmax ::
  "arith \<Rightarrow> real vec3 list \<Rightarrow> error + (npfloat vec3 list \<times> meta)" where
  "normalize_minmax ar vertices =
     (case amin_axis0 vertices of
        Inl e \<Rightarrow> Inl e
      | Inr vmin \<Rightarrow>
         (case amax_axis0 vertices of
            Inl e \<Rightarrow> Inl e
          | Inr vmax \<Rightarrow>
             (let denom = minmax_denom ar vmin vmax;
                  normalized =
                    map (\<lambda>v. vec3_zip (np_div ar)
                                (vec3_zip (np_sub ar) v (map_vec3 Finite vmin)) denom)
                        (to_npfloat vertices)
              in Inr (normalized, MinMaxMeta vmin vmax))))"

definition denormalize_minmax ::
  "arith \<Rightarrow> npfloat vec3 list \<Rightarrow> meta \<Rightarrow> error + npfloat vec3 list" where
  "denormalize_minmax ar normalized m =
     (case m of
        MinMaxMeta vmin vmax \<Rightarrow>
          (let span = vec3_zip (np_sub ar) (map_vec3 Finite vmax) (map_vec3 Finite vmin)
           in Inr (map (\<lambda>p. vec3_zip (np_add ar) (vec3_zip (np_mul ar) p span)
                                  (map_vec3 Finite vmin)) normalized))
      | SphereMeta _ _ \<Rightarrow> Inl KeyError)"

text \<open>
  \<^verbatim>\<open>
  def normalize_unit_sphere(vertices):
      centroid = vertices.mean(axis=0)
      shifted = vertices - centroid
      dists = np.linalg.norm(shifted, axis=1)
      maxd = dists.max()
      if maxd == 0:
          maxd = 1.0
      unit = shifted / maxd  # in ~[-1,1]
      # map to [0,1] for quantization convenience
      normalized = (unit + 1.0) / 2.0
      meta = {'centroid': centroid, 'maxd': float(maxd)}
      return normalized, meta

  def denormalize_unit_sphere(normalized, meta):
      centroid = meta['centroid']
      maxd = meta['maxd']
      unit = normalized * 2.0 - 1.0
      return unit * maxd + centroid
  \<close>
  On an array with no rows the mean is \<open>nan\<close> and \<^verbatim>\<open>dists.max()\<close> raises.
\<close>

definition normalize_unit_sphere ::
  "arith \<Rightarrow> real vec3 list \<Rightarrow> error + (npfloat vec3 list \<times> meta)" where
  "normalize_unit_sphere ar vertices =
     (let centroid = np_mean_axis0 ar (to_npfloat vertices);
          shifted = map (\<lambda>v. vec3_zip (np_sub ar) v centroid) (to_npfloat vertices);
          dists = map (norm3 ar) shifted
      in case amax dists of
           Inl e \<Rightarrow> Inl e
         | Inr maxd0 \<Rightarrow>
            (let maxd = (if maxd0 = Finite 0 then Finite 1 else maxd0);
                 unit = map (map_vec3 (\<lambda>c. np_div ar c maxd)) shifted;
                 normalized = map (map_vec3 (\<lambda>c. np_div ar (np_add ar c (Finite 1)) (Finite 2))) unit
             in Inr (normalized, SphereMeta centroid maxd)))"

definition denormalize_unit_sphere ::
  "arith \<Rightarrow> npfloat vec3 list \<Rightarrow> meta \<Rightarrow> error + npfloat vec3 list" where
  "denormalize_unit_sphere ar normalized m =
     (case m of
        SphereMeta centroid maxd \<Rightarrow>
          (let unit = map (map_vec3 (\<lambda>c. np_sub ar (np_mul ar c (Finite 2)) (Finite 1))) normalized
           in Inr (map (\<lambda>u. vec3_zip (np_add ar) (map_vec3 (\<lambda>c. np_mul ar c maxd) u) centroid)
                       unit))
      | MinMaxMeta _ _ \<Rightarrow> Inl KeyError)"

section \<open>Error analysis\<close>

text \<open>
  \<^verbatim>\<open>
  def compute_errors(original, reconstructed):
      diff = original - reconstructed
      mse_per_axis = np.mean(diff ** 2, axis=0)
      mae_per_axis = np.mean(np.abs(diff), axis=0)
      mse = float(np.mean(mse_per_axis))
      mae = float(np.mean(mae_per_axis))
      return {'mse_per_axis': mse_per_axis, 'mae_per_axis': mae_per_axis, 'mse': mse, 'mae': mae}
  \<close>
  The subtraction of an \<open>(N, 3)\<close> array and an \<open>(M, 3)\<close> array follows numpy's
  broadcasting rule: the row counts must be equal, or one of them must be 1 (that row is
  then repeated); otherwise numpy raises \<^verbatim>\<open>ValueError\<close>. There is no other length check.
\<close>

definition broadcast_sub ::
  "arith \<Rightarrow> npfloat vec3 list \<Rightarrow> npfloat vec3 list \<Rightarrow> error + npfloat vec3 list" where
  "broadcast_sub ar a b =
     (if length a = length b then Inr (map2 (vec3_zip (np_sub ar)) a b)
      else if length a = 1 then Inr (map (\<lambda>r. vec3_zip (np_sub ar) (hd a) r) b)
      else if length b = 1 then Inr (map (\<lambda>r. vec3_zip (np_sub ar) r (hd b)) a)
      else Inl ValueError)"

record error_report =
  mse_per_axis :: "npfloat vec3"
  mae_per_axis :: "npfloat vec3"
  mse :: npfloat
  mae :: npfloat

definition compute_errors ::
  "arith \<Rightarrow> npfloat vec3 list \<Rightarrow> npfloat vec3 list \<Rightarrow> error + error_report" where
  "compute_errors ar original reconstructed =
     (case broadcast_sub ar original reconstructed of
        Inl e \<Rightarrow> Inl e
      | Inr diff \<Rightarrow>
         (let mse_axis = np_mean_axis0 ar (map (map_vec3 (\<lambda>d. np_mul ar d d)) diff);
              mae_axis = np_mean_axis0 ar (map (map_vec3 np_abs) diff);
              mse_all = np_mean ar [vx mse_axis, vy mse_axis, vz mse_axis];
              mae_all = np_mean ar [vx mae_axis, vy mae_axis, vz mae_axis]
          in Inr \<lparr>mse_per_axis = mse_axis, mae_per_axis = mae_axis,
                  mse = mse_all, mae = mae_all\<rparr>))"

section \<open>Reconstruction pipeline\<close>

text \<open>
  \<^verbatim>\<open>
  def mesh_stats(vertices):
      stats = {}
      stats['n_vertices'] = vertices.shape[0]
      stats['min'] = vertices.min(axis=0)
      stats['max'] = vertices.max(axis=0)
      stats['mean'] = vertices.mean(axis=0)
      stats['std'] = vertices.std(axis=0)
      return stats
  \<close>
  The standard deviation is the square root of the mean of the squared deviations from
  the mean.
\<close>

record stats =
  n_vertices :: nat
  stats_min :: "real vec3"
  stats_max :: "real vec3"
  stats_mean :: "npfloat vec3"
  stats_std :: "npfloat vec3"

definition mesh_stats :: "arith \<Rightarrow> real vec3 list \<Rightarrow> error + stats" where
  "mesh_stats ar vertices =
     (case amin_axis0 vertices of
        Inl e \<Rightarrow> Inl e
      | Inr lo \<Rightarrow>
         (case amax_axis0 vertices of
            Inl e \<Rightarrow> Inl e
          | Inr hi \<Rightarrow>
             (let mu = np_mean_axis0 ar (to_npfloat vertices);
                  dev = map (\<lambda>v. map_vec3 (\<lambda>d. np_mul ar d d) (vec3_zip (np_sub ar) v mu))
                            (to_npfloat vertices)
              in Inr \<lparr>n_vertices = length vertices, stats_min = lo, stats_max = hi,
                      stats_mean = mu,
                      stats_std = map_vec3 (np_sqrt ar) (np_mean_axis0 ar dev)\<rparr>)))"

text \<open>
  The mesh as \<^verbatim>\<open>trimesh.load\<close> hands it over: the \<^verbatim>\<open>is_empty\<close> property (computed by the
  library), the vertex array, and the face array when the object has one.

  \<^verbatim>\<open>
  def process_mesh(path, out_dir, bins=1024, visualize=False):
      name = os.path.splitext(os.path.basename(path))[0]
      mesh = trimesh.load(path, process=False)
      if mesh.is_empty:
          print(f"Skipping empty mesh: {path}")
          return
      vertices = np.asarray(mesh.vertices, dtype=np.float64)
      ...
      stats = mesh_stats(vertices)
      ...
      methods = [
          ('minmax', normalize_minmax, denormalize_minmax),
          ('unit_sphere', normalize_unit_sphere, denormalize_unit_sphere)
      ]
      for method_name, normalize_fn, denormalize_fn in methods:
          try:
              normalized, meta = normalize_fn(vertices)
              quant = quantize(normalized, bins=bins)
              ...
              deq = dequantize(quant, bins=bins)
              recon = denormalize_fn(deq, meta)
              errors = compute_errors(vertices, recon)
              ...
          except Exception as e:
              print(f"Error processing {path} with method {method_name}: {e}")
  \<close>
  The model keeps what each method computes (the quantized integers, the reconstruction,
  the error report and the metadata, all of which the program writes to files) and leaves
  out the file system and the plots. \<open>Skipped\<close> is the early return; an exception inside
  the \<^verbatim>\<open>try\<close> block is caught per method, one raised by \<^verbatim>\<open>mesh_stats\<close> is not.
\<close>

record mesh =
  mesh_is_empty :: bool
  mesh_vertices :: "real vec3 list"
  mesh_faces :: "nat vec3 list option"

record method_output =
  out_quant :: "int vec3 list"
  out_recon :: "npfloat vec3 list"
  out_errors :: error_report
  out_meta :: meta

datatype method_result = MethodDone method_output | MethodFailed error

datatype outcome = Skipped | Processed stats "(string \<times> method_result) list"

type_synonym normalize_fn = "real vec3 list \<Rightarrow> error + (npfloat vec3 list \<times> meta)"
type_synonym denormalize_fn = "npfloat vec3 list \<Rightarrow> meta \<Rightarrow> error + npfloat vec3 list"

definition methods :: "arith \<Rightarrow> (string \<times> normalize_fn \<times> denormalize_fn) list" where
  "methods ar =
     [(''minmax'', normalize_minmax ar, denormalize_minmax ar),
      (''unit_sphere'', normalize_unit_sphere ar, denormalize_unit_sphere ar)]"

definition run_method ::
  "arith \<Rightarrow> real vec3 list \<Rightarrow> int \<Rightarrow> normalize_fn \<Rightarrow> denormalize_fn \<Rightarrow> method_result" where
  "run_method ar vertices bins normalize_fn denormalize_fn =
     (case normalize_fn vertices of
        Inl e \<Rightarrow> MethodFailed e
      | Inr (normalized, m) \<Rightarrow>
         (let quant = quantize ar normalized bins;
              deq = dequantize ar quant bins
          in case denormalize_fn deq m of
               Inl e \<Rightarrow> MethodFailed e
             | Inr recon \<Rightarrow>
                (case compute_errors ar (to_npfloat vertices) recon of
                   Inl e \<Rightarrow> MethodFailed e
                 | Inr errors \<Rightarrow>
                     MethodDone \<lparr>out_quant = quant, out_recon = recon,
                                 out_errors = errors, out_meta = m\<rparr>)))"

definition process_mesh :: "arith \<Rightarrow> mesh \<Rightarrow> int \<Rightarrow> error + outcome" where
  "process_mesh ar m bins =
     (if mesh_is_empty m then Inr Skipped
      else
        (let vertices = mesh_vertices m in
         case mesh_stats ar vertices of
           Inl e \<Rightarrow> Inl e
         | Inr st \<Rightarrow>
             Inr (Processed st
                    (map (\<lambda>(method_name, normalize_fn, denormalize_fn).
                            (method_name,
                             run_method ar vertices bins normalize_fn denormalize_fn))
                         (methods ar)))))"

section \<open>Error analysis as specified\<close>

text \<open>The arithmetic mean as the specification writes it, meant for a non-empty list.\<close>

definition mean_spec :: "real list \<Rightarrow> real" where
  "mean_spec xs = sum_list xs / real (length xs)"

text \<open>The column of differences \<open>diff[:, a]\<close> of two buffers of the same length.\<close>

definition diff_column :: "axis \<Rightarrow> real vec3 list \<Rightarrow> real vec3 list \<Rightarrow> real list" where
  "diff_column a original reconstructed =
     map2 (\<lambda>p q. coord a p - coord a q) original reconstructed"

text \<open>The error report as the specification defines it: per axis, the mean of the squared
  and of the absolute differences; overall, the mean of the three per-axis means.\<close>

definition mse_axis_spec :: "axis \<Rightarrow> real vec3 list \<Rightarrow> real vec3 list \<Rightarrow> real" where
  "mse_axis_spec a original reconstructed =
     mean_spec (map (\<lambda>d. d\<^sup>2) (diff_column a original reconstructed))"

definition mae_axis_spec :: "axis \<Rightarrow> real vec3 list \<Rightarrow> real vec3 list \<Rightarrow> real" where
  "mae_axis_spec a original reconstructed =
     mean_spec (map (\<lambda>d. \<bar>d\<bar>) (diff_column a original reconstructed))"

definition report_spec :: "real vec3 list \<Rightarrow> real vec3 list \<Rightarrow> error_report" where
  "report_spec original reconstructed =
     \<lparr>mse_per_axis = Vec3 (Finite (mse_axis_spec AxisX original reconstructed))
                          (Finite (mse_axis_spec AxisY original reconstructed))
                          (Finite (mse_axis_spec AxisZ original reconstructed)),
      mae_per_axis = Vec3 (Finite (mae_axis_spec AxisX original reconstructed))
                          (Finite (mae_axis_spec AxisY original reconstructed))
                          (Finite (mae_axis_spec AxisZ original reconstructed)),
      mse = Finite (mean_spec [mse_axis_spec AxisX original reconstructed,
                               mse_axis_spec AxisY original reconstructed,
                               mse_axis_spec AxisZ original reconstructed]),
      mae = Finite (mean_spec [mae_axis_spec AxisX original reconstructed,
                               mae_axis_spec AxisY original reconstructed,
                               mae_axis_spec AxisZ original reconstructed])\<rparr>"

section \<open>Basic facts about rows\<close>

lemma coord_vec3_zip: "coord a (vec3_zip f p q) = f (coord a p) (coord a q)"
  by (cases p; cases q; cases a) simp_all

lemma coord_map_vec3: "coord a (map_vec3 f p) = f (coord a p)"
  by (cases p; cases a) simp_all

lemma vec3_eqI:
  assumes "\<And>a. coord a p = coord a q"
  shows "p = q"
  using assms [of AxisX] assms [of AxisY] assms [of AxisZ]
  by (cases p; cases q) simp

lemma coord_fold_zip:
  "coord a (fold (vec3_zip f) vs v) = fold f (map (coord a) vs) (coord a v)"
  by (induction vs arbitrary: v) (simp_all add: coord_vec3_zip)

section \<open>Facts about rounding\<close>

lemma pow2_pos: "0 < pow2 k"
  by (simp add: pow2_def)

lemma pow2_Suc: "pow2 (k + 1) = 2 * pow2 k"
proof (cases "0 \<le> k")
  case True
  then show ?thesis by (simp add: pow2_def nat_add_distrib)
next
  case False
  then have "nat (- k) = Suc (nat (- (k + 1)))" by simp
  then show ?thesis using False by (simp add: pow2_def)
qed

lemma pow2_mono: "j \<le> k \<Longrightarrow> pow2 j \<le> pow2 k"
proof (induction "nat (k - j)" arbitrary: k)
  case 0
  then show ?case by simp
next
  case (Suc n)
  then have "n = nat ((k - 1) - j)" "j \<le> k - 1" by simp_all
  then have "pow2 j \<le> pow2 (k - 1)" using Suc.hyps(1) by blast
  also have "\<dots> \<le> pow2 k" using pow2_Suc [of "k - 1"] pow2_pos [of "k - 1"] by simp
  finally show ?case .
qed

lemma ilog2_bounds: "0 < x \<Longrightarrow> pow2 (ilog2 x) \<le> x \<and> x < pow2 (ilog2 x + 1)"
proof (induction x rule: ilog2.induct)
  case (1 x)
  show ?case
  proof (cases "x < 1")
    case True
    with "1.prems" have ih: "pow2 (ilog2 (2 * x)) \<le> 2 * x \<and> 2 * x < pow2 (ilog2 (2 * x) + 1)"
      using "1.IH"(1) by simp
    have e: "ilog2 x = ilog2 (2 * x) - 1" using True "1.prems" by (subst ilog2.simps) simp
    have "pow2 (ilog2 (2 * x)) = 2 * pow2 (ilog2 x)" using pow2_Suc [of "ilog2 x"] e by simp
    moreover have "pow2 (ilog2 (2 * x) + 1) = 2 * pow2 (ilog2 x + 1)"
      using pow2_Suc [of "ilog2 x + 1"] e by simp
    ultimately show ?thesis using ih by simp
  next
    case False
    show ?thesis
    proof (cases "2 \<le> x")
      case True
      with False "1.prems"
      have ih: "pow2 (ilog2 (x / 2)) \<le> x / 2 \<and> x / 2 < pow2 (ilog2 (x / 2) + 1)"
        using "1.IH"(2) by simp
      have e: "ilog2 x = ilog2 (x / 2) + 1"
        using True False "1.prems" by (subst ilog2.simps) simp
      have "pow2 (ilog2 x) = 2 * pow2 (ilog2 (x / 2))"
        using pow2_Suc [of "ilog2 (x / 2)"] e by simp
      moreover have "pow2 (ilog2 x + 1) = 2 * pow2 (ilog2 (x / 2) + 1)"
        using pow2_Suc [of "ilog2 (x / 2) + 1"] e by simp
      ultimately show ?thesis using ih by simp
    next
      case small: False
      have "ilog2 x = 0" using False small "1.prems" by (subst ilog2.simps) simp
      then show ?thesis using False small by (simp add: pow2_def)
    qed
  qed
qed

lemma ilog2_eqI:
  assumes "pow2 k \<le> x" "x < pow2 (k + 1)"
  shows "ilog2 x = k"
proof -
  have pos: "0 < x" using assms(1) pow2_pos [of k] by simp
  note b = ilog2_bounds [OF pos]
  have "\<not> ilog2 x + 1 \<le> k"
  proof
    assume "ilog2 x + 1 \<le> k"
    then have "pow2 (ilog2 x + 1) \<le> pow2 k" by (rule pow2_mono)
    with b assms show False by simp
  qed
  moreover have "\<not> k + 1 \<le> ilog2 x"
  proof
    assume "k + 1 \<le> ilog2 x"
    then have "pow2 (k + 1) \<le> pow2 (ilog2 x)" by (rule pow2_mono)
    with b assms show False by simp
  qed
  ultimately show ?thesis by simp
qed

text \<open>Rounding at a known exponent: the form in which concrete values are evaluated.\<close>

lemma binary64_round_eval:
  assumes "pow2 k \<le> \<bar>x\<bar>" "\<bar>x\<bar> < pow2 (k + 1)" "- 1022 \<le> k"
  shows "binary64_round x =
           (if 2 ^ 1024 \<le> \<bar>of_int (round_even (x / pow2 (k - 52))) * pow2 (k - 52)\<bar>
            then (if 0 < x then PosInf else NegInf)
            else Finite (of_int (round_even (x / pow2 (k - 52))) * pow2 (k - 52)))"
proof -
  have "x \<noteq> 0" using assms(1) pow2_pos [of k] by auto
  moreover have "ilog2 \<bar>x\<bar> = k" using assms(1,2) by (rule ilog2_eqI)
  ultimately show ?thesis using assms(3) by (simp add: binary64_round_def Let_def max_def)
qed

lemma binary64_round_zero: "binary64_round 0 = Finite 0"
  by (simp add: binary64_round_def)

lemma rnd_zero: "rnd ar 0 = Finite 0"
  by (cases ar) (simp_all add: binary64_round_zero)

lemma round_even_of_int: "round_even (of_int z) = z"
  by (simp add: round_even_def)

text \<open>Integers of magnitude below \<open>2^53\<close> are binary64 values.\<close>

lemma real_of_int_less_pow53:
  assumes "k < 2 ^ 53"
  shows "(of_int k :: real) < 2 ^ 53"
proof -
  from assms have "(of_int k :: real) < of_int (2 ^ 53)" by (simp only: of_int_less_iff)
  then show ?thesis by simp
qed

lemma binary64_round_of_int:
  assumes "1 \<le> k" "k < 2 ^ 53"
  shows "binary64_round (of_int k) = Finite (of_int k)"
proof -
  let ?x = "of_int k :: real"
  let ?e = "ilog2 ?x"
  have pos: "0 < ?x" using assms(1) by simp
  note b = ilog2_bounds [OF pos]
  have lo: "0 \<le> ?e"
  proof (rule ccontr)
    assume "\<not> 0 \<le> ?e"
    then have "?e + 1 \<le> 0" by simp
    then have "pow2 (?e + 1) \<le> pow2 0" by (rule pow2_mono)
    with b assms(1) show False by (simp add: pow2_def)
  qed
  have hi: "?e \<le> 52"
  proof (rule ccontr)
    assume "\<not> ?e \<le> 52"
    then have "53 \<le> ?e" by simp
    then have "pow2 53 \<le> pow2 ?e" by (rule pow2_mono)
    moreover have "?x < 2 ^ 53" using assms(2) by (rule real_of_int_less_pow53)
    ultimately show False using b by (simp add: pow2_def)
  qed
  define m where "m = nat (52 - ?e)"
  have ulp: "pow2 (?e - 52) = 1 / 2 ^ m"
  proof (cases "?e = 52")
    case True
    then show ?thesis by (simp add: pow2_def m_def)
  next
    case False
    with hi have "?e - 52 < 0" by simp
    then show ?thesis by (simp add: pow2_def m_def)
  qed
  have quot: "?x / pow2 (?e - 52) = of_int (k * 2 ^ m)" by (simp add: ulp)
  have r: "of_int (round_even (?x / pow2 (?e - 52))) * pow2 (?e - 52) = ?x"
    unfolding quot round_even_of_int by (simp add: ulp)
  have "?x < 2 ^ 53" using assms(2) by (rule real_of_int_less_pow53)
  also have "(2::real) ^ 53 \<le> 2 ^ 1024" by (rule power_increasing) simp_all
  finally have small: "\<not> 2 ^ 1024 \<le> \<bar>?x\<bar>" using pos by simp
  have "binary64_round ?x =
          (if 2 ^ 1024 \<le> \<bar>of_int (round_even (?x / pow2 (?e - 52))) * pow2 (?e - 52)\<bar>
           then (if 0 < ?x then PosInf else NegInf)
           else Finite (of_int (round_even (?x / pow2 (?e - 52))) * pow2 (?e - 52)))"
    using b lo pos by (intro binary64_round_eval) simp_all
  then show ?thesis unfolding r using small by simp
qed

lemma rnd_of_int:
  assumes "0 \<le> k" "k < 2 ^ 53"
  shows "rnd ar (of_int k) = Finite (of_int k)"
proof (cases "k = 0")
  case True
  then show ?thesis by (simp add: rnd_zero)
next
  case False
  with assms have "1 \<le> k" by simp
  then show ?thesis using assms(2) by (cases ar) (simp_all add: binary64_round_of_int)
qed

lemma np_sub_Finite: "np_sub ar (Finite a) (Finite b) = rnd ar (a - b)"
  by (simp add: np_sub_def)

section \<open>Quantizer: the encoder\<close>

lemma np_clip_clamp: "lo \<le> hi \<Longrightarrow> np_clip q lo hi = clamp_spec lo hi q"
  by (simp add: np_clip_def clamp_spec_def)

lemma quantize_elem_range:
  "1 \<le> bins \<Longrightarrow> 0 \<le> quantize_elem ar x bins \<and> quantize_elem ar x bins \<le> bins - 1"
  by (simp add: quantize_elem_def np_clip_def Let_def)

lemma astype_int64_in_range:
  "- (2 ^ 63) \<le> \<lfloor>p\<rfloor> \<Longrightarrow> \<lfloor>p\<rfloor> < 2 ^ 63 \<Longrightarrow> astype_int64 ar (np_floor (Finite p)) = \<lfloor>p\<rfloor>"
  by (cases ar) simp_all

lemma quantize_elem_encode:
  assumes "2 \<le> bins" "product_fits_int64 ar bins x"
  shows "quantize_elem ar x bins = encode_spec ar x bins"
proof (cases "np_mul ar x (rnd ar (of_int (bins - 1)))")
  case (Finite p)
  with assms(2) have "- (2 ^ 63) \<le> \<lfloor>p\<rfloor>" "\<lfloor>p\<rfloor> < 2 ^ 63"
    by (simp_all add: product_fits_int64_def)
  then have "astype_int64 ar (np_floor (Finite p)) = \<lfloor>p\<rfloor>" by (rule astype_int64_in_range)
  then show ?thesis
    using assms(1) Finite by (simp add: quantize_elem_def encode_spec_def np_clip_clamp)
qed (use assms(2) in \<open>simp_all add: product_fits_int64_def\<close>)

lemma quantize_elem_one:
  assumes "2 \<le> bins" "bins \<le> 2 ^ 53"
  shows "quantize_elem ar (Finite 1) bins = bins - 1"
proof -
  have k: "0 \<le> bins - 1" "bins - 1 < 2 ^ 53" using assms by simp_all
  have n: "rnd ar (of_int (bins - 1)) = Finite (of_int (bins - 1))"
    using k by (rule rnd_of_int)
  have "np_mul ar (Finite 1) (Finite (of_int (bins - 1))) = Finite (of_int (bins - 1))"
    using n by simp
  moreover have "astype_int64 ar (np_floor (Finite (of_int (bins - 1)))) = bins - 1"
    using k by (cases ar) simp_all
  ultimately show ?thesis
    using assms(1) by (simp add: quantize_elem_def n np_clip_def)
qed

text \<open>
  \<^bold>\<open>C7\<close> (as amended). For every integer \<open>bins \<ge> 2\<close> and every component whose product
  \<open>value * (bins - 1)\<close> is finite with its floor in the range of \<^verbatim>\<open>int64\<close>, in either
  arithmetic, \<open>quantize\<close> returns the floor of that product clamped to \<open>[0, bins - 1]\<close>; and
  when \<open>bins \<le> 2^53\<close> a component equal to 1 is mapped to \<open>bins - 1\<close>, not to \<open>bins\<close>.
\<close>

theorem quantize_is_clamped_floor:
  assumes "2 \<le> bins"
    and "list_all (pred_vec3 (product_fits_int64 ar bins)) normalized"
  shows "quantize ar normalized bins = map (map_vec3 (\<lambda>x. encode_spec ar x bins)) normalized
         \<and> (bins \<le> 2 ^ 53 \<longrightarrow>
              quantize ar [Vec3 (Finite 1) (Finite 1) (Finite 1)] bins
                = [Vec3 (bins - 1) (bins - 1) (bins - 1)])"
proof
  have "quantize_elem ar x bins = encode_spec ar x bins"
    if "p \<in> set normalized" "x \<in> set_vec3 p" for p x
  proof -
    have "product_fits_int64 ar bins x"
      using assms(2) that by (auto simp: list_all_iff vec3.pred_set)
    with assms(1) show ?thesis by (rule quantize_elem_encode)
  qed
  then show "quantize ar normalized bins = map (map_vec3 (\<lambda>x. encode_spec ar x bins)) normalized"
    by (simp add: quantize_def cong: vec3.map_cong)
  show "bins \<le> 2 ^ 53 \<longrightarrow>
          quantize ar [Vec3 (Finite 1) (Finite 1) (Finite 1)] bins
            = [Vec3 (bins - 1) (bins - 1) (bins - 1)]"
    using assms(1) by (simp add: quantize_def quantize_elem_one)
qed

theorem quantize_is_clamped_floor_witness:
  "(2::int) \<le> 4
   \<and> list_all (pred_vec3 (product_fits_int64 Machine 4))
         (to_npfloat [Vec3 0 (6004799503160661 / 18014398509481984) 1])
   \<and> quantize Machine (to_npfloat [Vec3 0 (6004799503160661 / 18014398509481984) 1]) 4
       = [Vec3 0 1 3]
   \<and> (4::int) \<le> 2 ^ 53
   \<and> quantize Machine [Vec3 (Finite 1) (Finite 1) (Finite 1)] 4 = [Vec3 (4 - 1) (4 - 1) (4 - 1)]"
proof -
  have r3: "binary64_round 3 = Finite 3"
    by (subst binary64_round_eval [of 1]) (simp_all add: pow2_def round_even_def)
  have rp: "binary64_round (18014398509481983 / 18014398509481984) = Finite 1"
    by (subst binary64_round_eval [of "- 1"]) (simp_all add: pow2_def round_even_def)
  have h1: "(2::int) \<le> 4" by simp
  have h2: "list_all (pred_vec3 (product_fits_int64 Machine 4))
              (to_npfloat [Vec3 0 (6004799503160661 / 18014398509481984) 1])"
    by (simp add: product_fits_int64_def to_npfloat_def r3 rp binary64_round_zero)
  have e: "map (map_vec3 (\<lambda>x. encode_spec Machine x 4))
             (to_npfloat [Vec3 0 (6004799503160661 / 18014398509481984) 1]) = [Vec3 0 1 3]"
    by (simp add: encode_spec_def clamp_spec_def to_npfloat_def r3 rp binary64_round_zero)
  from quantize_is_clamped_floor [OF h1 h2] h1 h2 show ?thesis
    unfolding e by simp
qed

text \<open>The claim as stated has no condition on the value or on \<open>bins\<close>. In the machine
  arithmetic a product whose floor does not fit \<^verbatim>\<open>int64\<close> is cast to \<open>-2^63\<close> and clipped to
  0, where the clamped floor is \<open>bins - 1\<close>; and for \<open>bins - 1 = 2^53 + 1\<close>, which is not a
  binary64 value, the component 1 is mapped to \<open>2^53\<close>.\<close>

theorem quantize_cast_overflow_counterexample:
  "quantize Machine (to_npfloat [Vec3 (2 ^ 100) (- (2 ^ 100)) (2 ^ 63)]) 4 = [Vec3 0 0 0]
   \<and> map (map_vec3 (\<lambda>x. encode_spec Machine x 4))
         (to_npfloat [Vec3 (2 ^ 100) (- (2 ^ 100)) (2 ^ 63)]) = [Vec3 3 0 3]
   \<and> quantize Machine [Vec3 (Finite 1) (Finite 1) (Finite 1)] (2 ^ 53 + 2)
       = [Vec3 (2 ^ 53) (2 ^ 53) (2 ^ 53)]"
proof -
  have r3: "binary64_round 3 = Finite 3"
    by (subst binary64_round_eval [of 1]) (simp_all add: pow2_def round_even_def)
  have a: "binary64_round 3802951800684688204490109616128 = Finite 3802951800684688204490109616128"
    by (subst binary64_round_eval [of 101]) (simp_all add: pow2_def round_even_def)
  have b: "binary64_round (- 3802951800684688204490109616128)
             = Finite (- 3802951800684688204490109616128)"
    by (subst binary64_round_eval [of 101]) (simp_all add: pow2_def round_even_def)
  have c: "binary64_round 27670116110564327424 = Finite 27670116110564327424"
    by (subst binary64_round_eval [of 64]) (simp_all add: pow2_def round_even_def)
  have d: "binary64_round 9007199254740993 = Finite 9007199254740992"
    by (subst binary64_round_eval [of 53]) (simp_all add: pow2_def round_even_def)
  have e: "binary64_round 9007199254740992 = Finite 9007199254740992"
    by (subst binary64_round_eval [of 53]) (simp_all add: pow2_def round_even_def)
  show ?thesis
    by (simp add: quantize_def quantize_elem_def encode_spec_def clamp_spec_def to_npfloat_def
        np_clip_def r3 a b c d e)
qed

text \<open>
  \<^bold>\<open>C9.\<close> For every integer \<open>bins \<ge> 2\<close> and every input buffer, also with values below 0 or
  above 1 (and, in this model, with non-finite values), in either arithmetic, every
  component of the output of \<open>quantize\<close> lies in \<open>[0, bins - 1]\<close>.
\<close>

theorem quantize_output_in_range:
  assumes "2 \<le> bins"
  shows "list_all (pred_vec3 (\<lambda>q. 0 \<le> q \<and> q \<le> bins - 1)) (quantize ar normalized bins)"
proof -
  have "1 \<le> bins" using assms by simp
  then have "\<And>x. 0 \<le> quantize_elem ar x bins \<and> quantize_elem ar x bins \<le> bins - 1"
    by (rule quantize_elem_range)
  then show ?thesis
    by (simp add: quantize_def list_all_iff vec3.pred_set vec3.set_map)
qed

theorem quantize_output_in_range_witness:
  "(2::int) \<le> 4
   \<and> list_all (pred_vec3 (\<lambda>q. 0 \<le> q \<and> q \<le> (4::int) - 1))
        (quantize Machine (to_npfloat [Vec3 (-3) 2 (1/3), Vec3 (7/2) (-1/4) 1]) 4)"
proof -
  have h: "(2::int) \<le> 4" by simp
  from h quantize_output_in_range
    [OF h, of Machine "to_npfloat [Vec3 (-3) 2 (1/3), Vec3 (7/2) (-1/4) 1]"]
  show ?thesis by (rule conjI)
qed

section \<open>Quantizer: decoding\<close>

lemma quantize_elem_Ideal:
  "quantize_elem Ideal (Finite x) bins = np_clip \<lfloor>x * of_int (bins - 1)\<rfloor> 0 (bins - 1)"
  by (simp add: quantize_elem_def)

lemma quantize_elem_unit:
  assumes "2 \<le> bins" "0 \<le> x" "x \<le> 1"
  shows "quantize_elem Ideal (Finite x) bins = \<lfloor>x * of_int (bins - 1)\<rfloor>"
proof -
  have n: "(0::real) < of_int (bins - 1)" using assms by simp
  have "0 \<le> x * of_int (bins - 1)" using assms n by simp
  then have lo: "0 \<le> \<lfloor>x * of_int (bins - 1)\<rfloor>" by simp
  have "x * of_int (bins - 1) \<le> 1 * of_int (bins - 1)"
    using assms n by (intro mult_right_mono) simp_all
  then have "\<lfloor>x * of_int (bins - 1)\<rfloor> \<le> \<lfloor>(of_int (bins - 1))::real\<rfloor>"
    by (intro floor_mono) simp
  then have hi: "\<lfloor>x * of_int (bins - 1)\<rfloor> \<le> bins - 1" by simp
  show ?thesis using lo hi by (simp add: quantize_elem_Ideal np_clip_def)
qed

lemma dequantize_elem_finite:
  "2 \<le> bins \<Longrightarrow> dequantize_elem Ideal q bins = Finite (of_int q / of_int (bins - 1))"
  by (simp add: dequantize_elem_def)

lemma codec_elem:
  assumes "2 \<le> bins" "0 \<le> x" "x \<le> 1"
  shows "dequantize_elem Ideal (quantize_elem Ideal (Finite x) bins) bins
           = Finite (of_int \<lfloor>x * of_int (bins - 1)\<rfloor> / of_int (bins - 1))"
    and "\<bar>of_int \<lfloor>x * of_int (bins - 1)\<rfloor> / of_int (bins - 1) - x\<bar> \<le> 1 / of_int (bins - 1)"
proof -
  let ?n = "of_int (bins - 1) :: real"
  let ?k = "\<lfloor>x * ?n\<rfloor>"
  have n: "0 < ?n" using assms by simp
  have q: "quantize_elem Ideal (Finite x) bins = ?k" using assms by (rule quantize_elem_unit)
  show "dequantize_elem Ideal (quantize_elem Ideal (Finite x) bins) bins = Finite (of_int ?k / ?n)"
    using assms(1) by (simp add: q dequantize_elem_finite)
  have le: "of_int ?k \<le> x * ?n" by simp
  have lt: "x * ?n < of_int ?k + 1" by linarith
  have a: "of_int ?k / ?n \<le> x" using le n by (simp add: pos_divide_le_eq)
  have b: "x < (of_int ?k + 1) / ?n" using lt n by (simp add: pos_less_divide_eq)
  show "\<bar>of_int ?k / ?n - x\<bar> \<le> 1 / ?n"
    using a b by (simp add: add_divide_distrib)
qed

section \<open>The error of one rounding\<close>

lemma round_even_error: "\<bar>of_int (round_even z) - z\<bar> \<le> 1 / 2"
proof -
  have "of_int \<lfloor>z\<rfloor> \<le> z" "z < of_int \<lfloor>z\<rfloor> + 1" by linarith+
  then show ?thesis by (auto simp: round_even_def Let_def)
qed

lemma round_even_nonneg: "0 \<le> z \<Longrightarrow> 0 \<le> round_even z"
proof -
  assume "0 \<le> z"
  then have "0 \<le> \<lfloor>z\<rfloor>" by simp
  then show ?thesis by (auto simp: round_even_def Let_def)
qed

lemma pow2_half: "pow2 (k - 52) = 2 * pow2 (k - 53)"
  using pow2_Suc [of "k - 53"] by simp

lemma pow2_shift: "pow2 (k - 53) = pow2 k / 2 ^ 53"
proof -
  have "pow2 (j + int n) = 2 ^ n * pow2 j" for j n
  proof (induction n)
    case 0
    show ?case by simp
  next
    case (Suc n)
    have "j + int (Suc n) = (j + int n) + 1" by simp
    then have "pow2 (j + int (Suc n)) = pow2 ((j + int n) + 1)" by (rule arg_cong)
    also have "\<dots> = 2 * pow2 (j + int n)" by (rule pow2_Suc)
    finally show ?case using Suc by simp
  qed
  from this [of "k - 53" 53] have "pow2 (k - 53 + int 53) = 2 ^ 53 * pow2 (k - 53)" .
  moreover have "k - 53 + int 53 = k" by simp
  ultimately show ?thesis by simp
qed

lemma binary64_round_error:
  assumes "x \<noteq> 0" "\<bar>x\<bar> \<le> 2 ^ 53"
  shows "\<exists>r. binary64_round x = Finite r
              \<and> \<bar>r - x\<bar> \<le> pow2 (max (ilog2 \<bar>x\<bar>) (- 1022) - 53)
              \<and> (0 \<le> x \<longrightarrow> 0 \<le> r)"
proof -
  let ?e = "max (ilog2 \<bar>x\<bar>) (- 1022)"
  let ?ulp = "pow2 (?e - 52)"
  let ?z = "x / ?ulp"
  let ?r = "of_int (round_even ?z) * ?ulp"
  have pos: "0 < \<bar>x\<bar>" using assms(1) by simp
  note b = ilog2_bounds [OF pos]
  have up: "0 < ?ulp" by (rule pow2_pos)
  have e53: "?e \<le> 53"
  proof (rule ccontr)
    assume "\<not> ?e \<le> 53"
    then have "54 \<le> ilog2 \<bar>x\<bar>" by simp
    then have "pow2 54 \<le> pow2 (ilog2 \<bar>x\<bar>)" by (rule pow2_mono)
    with b assms(2) show False by (simp add: pow2_def)
  qed
  have "?r - x = (of_int (round_even ?z) - ?z) * ?ulp"
    using up by (simp add: left_diff_distrib)
  then have "\<bar>?r - x\<bar> = \<bar>of_int (round_even ?z) - ?z\<bar> * ?ulp"
    using up by (simp only: abs_mult abs_of_pos)
  also have "\<dots> \<le> 1 / 2 * ?ulp"
    using round_even_error [of ?z] up by (intro mult_right_mono) simp_all
  also have "\<dots> = pow2 (?e - 53)" by (simp add: pow2_half)
  finally have err: "\<bar>?r - x\<bar> \<le> pow2 (?e - 53)" .
  have "pow2 (?e - 53) \<le> pow2 0" using e53 by (intro pow2_mono) simp
  then have "pow2 (?e - 53) \<le> 1" by (simp add: pow2_def)
  with err assms(2) have "\<bar>?r\<bar> \<le> 2 ^ 53 + 1" by linarith
  also have "(2::real) ^ 53 + 1 < 2 ^ 1024" by simp
  finally have fin: "\<not> 2 ^ 1024 \<le> \<bar>?r\<bar>" by simp
  have val: "binary64_round x = Finite ?r"
    using assms(1) fin by (simp add: binary64_round_def Let_def)
  have sgn: "0 \<le> x \<longrightarrow> 0 \<le> ?r"
  proof
    assume "0 \<le> x"
    then have "0 \<le> ?z" using up by simp
    then have "0 \<le> round_even ?z" by (rule round_even_nonneg)
    then show "0 \<le> ?r" using up by simp
  qed
  from val err sgn show ?thesis by blast
qed

lemma binary64_round_near:
  assumes "0 < y" "y \<le> b" "1 \<le> b" "b \<le> 2 ^ 53"
  shows "\<exists>r. binary64_round y = Finite r \<and> 0 \<le> r \<and> \<bar>r - y\<bar> \<le> b / 2 ^ 53"
proof -
  have "y \<noteq> 0" "\<bar>y\<bar> \<le> 2 ^ 53" using assms by simp_all
  from binary64_round_error [OF this] assms(1)
  obtain r where r: "binary64_round y = Finite r" "0 \<le> r"
    and err: "\<bar>r - y\<bar> \<le> pow2 (max (ilog2 \<bar>y\<bar>) (- 1022) - 53)"
    by auto
  have "pow2 (max (ilog2 \<bar>y\<bar>) (- 1022) - 53) \<le> b / 2 ^ 53"
  proof (cases "- 1022 \<le> ilog2 \<bar>y\<bar>")
    case True
    then have "max (ilog2 \<bar>y\<bar>) (- 1022) = ilog2 \<bar>y\<bar>" by simp
    then have "pow2 (max (ilog2 \<bar>y\<bar>) (- 1022) - 53) = pow2 (ilog2 \<bar>y\<bar>) / 2 ^ 53"
      by (simp only: pow2_shift)
    also have "\<dots> \<le> y / 2 ^ 53"
      using ilog2_bounds [of "\<bar>y\<bar>"] assms(1) by (simp add: divide_right_mono)
    also have "\<dots> \<le> b / 2 ^ 53" using assms(2) by (simp add: divide_right_mono)
    finally show ?thesis .
  next
    case False
    then have "max (ilog2 \<bar>y\<bar>) (- 1022) = - 1022" by simp
    then have "pow2 (max (ilog2 \<bar>y\<bar>) (- 1022) - 53) = pow2 (- 1022) / 2 ^ 53"
      by (simp only: pow2_shift)
    also have "\<dots> \<le> 1 / 2 ^ 53" by (simp add: pow2_def divide_right_mono)
    also have "\<dots> \<le> b / 2 ^ 53" using assms(3) by (simp add: divide_right_mono)
    finally show ?thesis .
  qed
  with r err show ?thesis by fastforce
qed

section \<open>Quantizer: decoding in the machine arithmetic\<close>

lemma decode_error_bound:
  fixes x n p q d e :: real
  assumes "1 \<le> n" "\<bar>p - x * n\<bar> \<le> n * e" "q \<le> p" "p < q + 1" "\<bar>d - q / n\<bar> \<le> e"
  shows "\<bar>d - x\<bar> \<le> 1 / n + (e + e)"
proof -
  have n: "0 < n" using assms(1) by simp
  have "(x + e) * n = x * n + n * e" by (simp add: algebra_simps)
  then have "q \<le> (x + e) * n" using assms(2,3) by linarith
  then have hi: "q / n \<le> x + e" using n by (simp only: pos_divide_le_eq)
  have "1 / n * n = 1" using n by simp
  then have "(x - e - 1 / n) * n = x * n - n * e - 1" by (simp add: algebra_simps)
  then have "(x - e - 1 / n) * n \<le> q" using assms(2,4) by linarith
  then have lo: "x - e - 1 / n \<le> q / n" using n by (simp only: pos_le_divide_eq)
  have "0 \<le> 1 / n" using n by simp
  with hi lo assms(5) show ?thesis by linarith
qed

lemma codec_elem_machine:
  assumes "2 \<le> bins" "bins \<le> 2 ^ 53" "0 \<le> x" "x \<le> 1"
  shows "\<exists>d. dequantize_elem Machine (quantize_elem Machine (Finite x) bins) bins = Finite d
              \<and> \<bar>d - x\<bar> \<le> 1 / of_int (bins - 1) + 1 / 2 ^ 52"
proof -
  define n :: real where "n = of_int (bins - 1)"
  define e :: real where "e = 1 / 2 ^ 53"
  have k: "0 \<le> bins - 1" "bins - 1 < 2 ^ 53" using assms(1,2) by simp_all
  have n1: "1 \<le> n" using assms(1) by (simp add: n_def)
  have n53: "n \<le> 2 ^ 53"
    using real_of_int_less_pow53 [OF k(2)] by (simp add: n_def)
  have rn: "rnd Machine (of_int (bins - 1)) = Finite n"
    unfolding n_def using k by (rule rnd_of_int)
  have ee: "e + e = 1 / 2 ^ 52" by (simp add: e_def)
  have e0: "0 \<le> e" by (simp add: e_def)
  obtain p where p: "np_mul Machine (Finite x) (Finite n) = Finite p" "0 \<le> p"
    "\<bar>p - x * n\<bar> \<le> n * e"
  proof (cases "x = 0")
    case True
    have "np_mul Machine (Finite x) (Finite n) = Finite 0"
      using True by (simp add: binary64_round_zero)
    moreover have "\<bar>0 - x * n\<bar> \<le> n * e" using True n1 e0 by simp
    ultimately show ?thesis using that by blast
  next
    case False
    have y: "0 < x * n" "x * n \<le> n"
      using False assms(3,4) n1 by (simp_all add: mult_left_le_one_le)
    from binary64_round_near [OF y n1 n53]
    obtain r where "binary64_round (x * n) = Finite r" "0 \<le> r" "\<bar>r - x * n\<bar> \<le> n / 2 ^ 53"
      by blast
    then show ?thesis using that by (simp add: e_def)
  qed
  let ?q = "\<lfloor>p\<rfloor>"
  have q0: "0 \<le> ?q" using p(2) by simp
  have "n * e \<le> 2 ^ 53 * e" using n53 e0 by (rule mult_right_mono)
  then have "n * e \<le> 1" by (simp add: e_def)
  moreover have "x * n \<le> n" using assms(3,4) n1 by (simp add: mult_left_le_one_le)
  ultimately have "p \<le> n + 1" using p(3) by linarith
  moreover have "p \<noteq> n + 1"
  proof
    assume eq: "p = n + 1"
    then have "n * e = 1 \<or> 1 < n * e" using p(3) \<open>x * n \<le> n\<close> by linarith
    then have "2 ^ 53 \<le> n" using \<open>n * e \<le> 1\<close> by (auto simp: e_def)
    with n53 have "n = 2 ^ 53" by simp
    then have "(of_int (bins - 1) :: real) = of_int (2 ^ 53)" by (simp add: n_def)
    then have "bins - 1 = 2 ^ 53" by (simp only: of_int_eq_iff)
    with k(2) show False by simp
  qed
  ultimately have "p < of_int (bins - 1 + 1)" by (simp add: n_def)
  then have "?q < bins - 1 + 1" by (simp only: floor_less_iff)
  then have qn: "?q \<le> bins - 1" by simp
  have "(- (2 ^ 63) :: int) \<le> 0" "(2 ^ 53 :: int) \<le> 2 ^ 63" by simp_all
  then have "- (2 ^ 63) \<le> ?q" "?q < 2 ^ 63" using q0 qn k(2) by linarith+
  then have cast: "astype_int64 Machine (np_floor (Finite p)) = ?q"
    by (rule astype_int64_in_range)
  have qe: "quantize_elem Machine (Finite x) bins = ?q"
    unfolding quantize_elem_def Let_def rn p(1) cast np_clip_def using q0 qn by simp
  have "?q < 2 ^ 53" using qn k(2) by linarith
  with q0 have rq: "rnd Machine (of_int ?q) = Finite (of_int ?q)"
    by (rule rnd_of_int)
  have nz: "n \<noteq> 0" using n1 by simp
  have deq: "dequantize_elem Machine ?q bins = binary64_round (of_int ?q / n)"
    unfolding dequantize_elem_def Let_def rn rq using nz by simp
  have lo: "of_int ?q \<le> p" and hi: "p < of_int ?q + 1" by linarith+
  obtain d where d: "binary64_round (of_int ?q / n) = Finite d" "\<bar>d - of_int ?q / n\<bar> \<le> e"
  proof (cases "?q = 0")
    case True
    then have "binary64_round (of_int ?q / n) = Finite 0" by (simp add: binary64_round_zero)
    moreover have "\<bar>0 - of_int ?q / n\<bar> \<le> e" using True e0 by simp
    ultimately show ?thesis using that by blast
  next
    case False
    with q0 have "0 < ?q" by linarith
    then have "(of_int 0 :: real) < of_int ?q" by (simp only: of_int_less_iff)
    then have "(0::real) < of_int ?q" by (simp only: of_int_0)
    then have t: "0 < of_int ?q / n" using n1 by simp
    have "(of_int ?q :: real) \<le> of_int (bins - 1)" using qn by (simp only: of_int_le_iff)
    then have t1: "of_int ?q / n \<le> 1" using n1 by (simp add: n_def)
    from binary64_round_near [OF t t1]
    obtain r where "binary64_round (of_int ?q / n) = Finite r" "\<bar>r - of_int ?q / n\<bar> \<le> 1 / 2 ^ 53"
      by auto
    then show ?thesis using that by (simp add: e_def)
  qed
  have "\<bar>d - x\<bar> \<le> 1 / n + (e + e)"
    using n1 p(3) lo hi d(2) by (rule decode_error_bound)
  then have "\<bar>d - x\<bar> \<le> 1 / of_int (bins - 1) + 1 / 2 ^ 52"
    unfolding ee n_def .
  with d(1) deq qe show ?thesis by simp
qed

lemma codec_buffer:
  assumes elem: "\<And>x. 0 \<le> x \<Longrightarrow> x \<le> 1 \<Longrightarrow>
            \<exists>d. dequantize_elem ar (quantize_elem ar (Finite x) bins) bins = Finite d
                 \<and> \<bar>d - x\<bar> \<le> tol"
    and unit: "list_all (pred_vec3 (\<lambda>x. 0 \<le> x \<and> x \<le> 1)) normalized"
  shows "\<exists>decoded. dequantize ar (quantize ar (to_npfloat normalized) bins) bins = to_npfloat decoded
           \<and> list_all2 (rel_vec3 (\<lambda>y x. \<bar>y - x\<bar> \<le> tol)) decoded normalized"
proof -
  define g where "g x = (case dequantize_elem ar (quantize_elem ar (Finite x) bins) bins of
                           Finite d \<Rightarrow> d | _ \<Rightarrow> 0)" for x
  have g: "dequantize_elem ar (quantize_elem ar (Finite x) bins) bins = Finite (g x)
           \<and> \<bar>g x - x\<bar> \<le> tol" if "0 \<le> x" "x \<le> 1" for x
    using elem [OF that] by (auto simp: g_def)
  have rng: "0 \<le> x \<and> x \<le> 1" if "p \<in> set normalized" "x \<in> set_vec3 p" for p x
    using unit that by (auto simp: list_all_iff vec3.pred_set)
  have "map_vec3 (\<lambda>c. dequantize_elem ar c bins)
          (map_vec3 (\<lambda>x. quantize_elem ar x bins) (map_vec3 Finite p))
          = map_vec3 Finite (map_vec3 g p)" if "p \<in> set normalized" for p
    using rng [OF that] g by (simp add: vec3.map_comp comp_def cong: vec3.map_cong)
  then have eq: "dequantize ar (quantize ar (to_npfloat normalized) bins) bins
                   = to_npfloat (map (map_vec3 g) normalized)"
    by (simp add: dequantize_def quantize_def to_npfloat_def)
  have "rel_vec3 (\<lambda>y x. \<bar>y - x\<bar> \<le> tol) (map_vec3 g p) p" if "p \<in> set normalized" for p
    using rng [OF that] g by (cases p) simp
  then have "list_all2 (rel_vec3 (\<lambda>y x. \<bar>y - x\<bar> \<le> tol)) (map (map_vec3 g) normalized) normalized"
    by (simp add: list_all2_map1 list_all2_same)
  with eq show ?thesis by blast
qed

text \<open>
  \<^bold>\<open>C2\<close> (as amended). For every integer \<open>bins \<ge> 2\<close> and every \<open>x\<close> in \<open>[0, 1]\<close>, decoding
  the encoding of \<open>x\<close> gives a finite value that lies within \<open>1 / (bins - 1)\<close> of \<open>x\<close> in exact
  arithmetic, and within \<open>1 / (bins - 1) + 2^-52\<close> of \<open>x\<close> in the machine arithmetic when
  \<open>bins \<le> 2^53\<close>. Stated for a whole buffer with components in \<open>[0, 1]\<close>.
\<close>

theorem decode_encode_within_step:
  assumes "2 \<le> bins"
    and "list_all (pred_vec3 (\<lambda>x. 0 \<le> x \<and> x \<le> 1)) normalized"
  shows "(\<exists>decoded.
            dequantize Ideal (quantize Ideal (to_npfloat normalized) bins) bins = to_npfloat decoded
            \<and> list_all2 (rel_vec3 (\<lambda>y x. \<bar>y - x\<bar> \<le> 1 / of_int (bins - 1))) decoded normalized)
         \<and> (bins \<le> 2 ^ 53 \<longrightarrow>
              (\<exists>decoded.
                 dequantize Machine (quantize Machine (to_npfloat normalized) bins) bins
                   = to_npfloat decoded
                 \<and> list_all2 (rel_vec3 (\<lambda>y x. \<bar>y - x\<bar> \<le> 1 / of_int (bins - 1) + 1 / 2 ^ 52))
                      decoded normalized))"
proof (intro conjI impI)
  have "\<exists>d. dequantize_elem Ideal (quantize_elem Ideal (Finite x) bins) bins = Finite d
             \<and> \<bar>d - x\<bar> \<le> 1 / of_int (bins - 1)" if "0 \<le> x" "x \<le> 1" for x
    using codec_elem [OF assms(1) that] by blast
  then show "\<exists>decoded.
            dequantize Ideal (quantize Ideal (to_npfloat normalized) bins) bins = to_npfloat decoded
            \<and> list_all2 (rel_vec3 (\<lambda>y x. \<bar>y - x\<bar> \<le> 1 / of_int (bins - 1))) decoded normalized"
    using assms(2) by (rule codec_buffer)
next
  assume "bins \<le> 2 ^ 53"
  then have "\<exists>d. dequantize_elem Machine (quantize_elem Machine (Finite x) bins) bins = Finite d
             \<and> \<bar>d - x\<bar> \<le> 1 / of_int (bins - 1) + 1 / 2 ^ 52" if "0 \<le> x" "x \<le> 1" for x
    using codec_elem_machine [OF assms(1) _ that] by blast
  then show "\<exists>decoded.
                 dequantize Machine (quantize Machine (to_npfloat normalized) bins) bins
                   = to_npfloat decoded
                 \<and> list_all2 (rel_vec3 (\<lambda>y x. \<bar>y - x\<bar> \<le> 1 / of_int (bins - 1) + 1 / 2 ^ 52))
                      decoded normalized"
    using assms(2) by (rule codec_buffer)
qed

theorem decode_encode_within_step_witness:
  "(2::int) \<le> 4
   \<and> list_all (pred_vec3 (\<lambda>x::real. 0 \<le> x \<and> x \<le> 1))
         [Vec3 0 (1/2) 1, Vec3 (1/3) (9/10) (1/7)]
   \<and> (\<exists>decoded.
         dequantize Ideal (quantize Ideal (to_npfloat [Vec3 0 (1/2) 1, Vec3 (1/3) (9/10) (1/7)]) 4) 4
           = to_npfloat decoded
         \<and> list_all2 (rel_vec3 (\<lambda>y x. \<bar>y - x\<bar> \<le> 1 / of_int ((4::int) - 1))) decoded
             [Vec3 0 (1/2) 1, Vec3 (1/3) (9/10) (1/7)])
   \<and> (4::int) \<le> 2 ^ 53
   \<and> (\<exists>decoded.
         dequantize Machine (quantize Machine (to_npfloat [Vec3 0 (1/2) 1, Vec3 (1/3) (9/10) (1/7)]) 4) 4
           = to_npfloat decoded
         \<and> list_all2 (rel_vec3 (\<lambda>y x. \<bar>y - x\<bar> \<le> 1 / of_int ((4::int) - 1) + 1 / 2 ^ 52)) decoded
             [Vec3 0 (1/2) 1, Vec3 (1/3) (9/10) (1/7)])"
proof -
  have h1: "(2::int) \<le> 4" by simp
  have h2: "list_all (pred_vec3 (\<lambda>x::real. 0 \<le> x \<and> x \<le> 1))
              [Vec3 0 (1/2) 1, Vec3 (1/3) (9/10) (1/7)]"
    by simp
  have h3: "(4::int) \<le> 2 ^ 53" by simp
  from h1 h2 h3 decode_encode_within_step [OF h1 h2] show ?thesis by blast
qed

text \<open>The claim as stated, the bound \<open>1 / (bins - 1)\<close> itself, fails in the machine
  arithmetic: with \<open>bins = 56\<close> the binary64 value \<open>0.2727272727272727\<close> is encoded as 14 and
  decoded to the binary64 value below \<open>14 / 55\<close>, which is farther than \<open>1 / 55\<close> from it.\<close>

theorem decode_encode_binary64_counterexample:
  "(0::real) \<le> 1228254443828317 / 4503599627370496
   \<and> (1228254443828317 / 4503599627370496 :: real) \<le> 1
   \<and> quantize Machine (to_npfloat [Vec3 (1228254443828317 / 4503599627370496) 0 1]) 56
       = [Vec3 14 0 55]
   \<and> dequantize Machine [Vec3 14 0 55] 56
       = to_npfloat [Vec3 (2292741628479525 / 9007199254740992) 0 1]
   \<and> (1::real) / of_int (56 - 1)
       < \<bar>2292741628479525 / 9007199254740992 - 1228254443828317 / 4503599627370496\<bar>"
proof -
  have r55: "binary64_round 55 = Finite 55"
    by (subst binary64_round_eval [of 5]) (simp_all add: pow2_def round_even_def)
  have r14: "binary64_round 14 = Finite 14"
    by (subst binary64_round_eval [of 3]) (simp_all add: pow2_def round_even_def)
  have r1: "binary64_round 1 = Finite 1"
    by (subst binary64_round_eval [of 0]) (simp_all add: pow2_def round_even_def)
  have p: "binary64_round (67553994410557435 / 4503599627370496)
             = Finite (8444249301319679 / 562949953421312)"
    by (subst binary64_round_eval [of 3]) (simp_all add: pow2_def round_even_def)
  have d: "binary64_round (14 / 55) = Finite (2292741628479525 / 9007199254740992)"
    by (subst binary64_round_eval [of "- 2"]) (simp_all add: pow2_def round_even_def)
  show ?thesis
    by (simp add: quantize_def quantize_elem_def dequantize_def dequantize_elem_def
        to_npfloat_def np_clip_def r55 r14 r1 p d binary64_round_zero)
qed

text \<open>
  \<^bold>\<open>C10.\<close> For every integer \<open>bins \<ge> 2\<close> and every integer \<open>q\<close> in \<open>[0, bins - 1]\<close>, in exact
  arithmetic, the decoded value \<open>q / (bins - 1)\<close> is finite and encodes back to \<open>q\<close>:
  re-encoding a decoded buffer returns the buffer.
\<close>

theorem encode_decode_fixed_point:
  assumes "2 \<le> bins"
    and "list_all (pred_vec3 (\<lambda>q. 0 \<le> q \<and> q \<le> bins - 1)) quant"
  shows "\<exists>decoded. dequantize Ideal quant bins = to_npfloat decoded
           \<and> decoded = map (map_vec3 (\<lambda>q. of_int q / of_int (bins - 1))) quant
           \<and> quantize Ideal (to_npfloat decoded) bins = quant"
proof -
  let ?g = "\<lambda>q::int. of_int q / (of_int (bins - 1) :: real)"
  have n: "(of_int (bins - 1) :: real) \<noteq> 0" using assms(1) by simp
  have reenc: "quantize_elem Ideal (Finite (?g q)) bins = q" if "0 \<le> q" "q \<le> bins - 1" for q
    using that n by (simp add: quantize_elem_Ideal np_clip_def)
  have rng: "0 \<le> q \<and> q \<le> bins - 1" if "p \<in> set quant" "q \<in> set_vec3 p" for p q
    using assms(2) that by (auto simp: list_all_iff vec3.pred_set)
  have deq: "dequantize Ideal quant bins = to_npfloat (map (map_vec3 ?g) quant)"
    using assms(1)
    by (simp add: dequantize_def to_npfloat_def dequantize_elem_finite vec3.map_comp comp_def)
  have "map_vec3 (\<lambda>x. quantize_elem Ideal x bins) (map_vec3 Finite (map_vec3 ?g p)) = p"
    if "p \<in> set quant" for p
  proof -
    have "map_vec3 (\<lambda>q. quantize_elem Ideal (Finite (?g q)) bins) p = map_vec3 id p"
      using rng [OF that] reenc by (intro vec3.map_cong) simp_all
    then show ?thesis by (simp add: vec3.map_comp comp_def vec3.map_id)
  qed
  then have "quantize Ideal (to_npfloat (map (map_vec3 ?g) quant)) bins = quant"
    by (simp add: quantize_def to_npfloat_def map_idI)
  with deq show ?thesis by blast
qed

theorem encode_decode_fixed_point_witness:
  "(2::int) \<le> 4
   \<and> list_all (pred_vec3 (\<lambda>q. 0 \<le> q \<and> q \<le> (4::int) - 1)) [Vec3 0 1 2, Vec3 3 3 0]
   \<and> (\<exists>decoded. dequantize Ideal [Vec3 0 1 2, Vec3 3 3 0] 4 = to_npfloat decoded
         \<and> decoded = map (map_vec3 (\<lambda>q. of_int q / of_int ((4::int) - 1))) [Vec3 0 1 2, Vec3 3 3 0]
         \<and> quantize Ideal (to_npfloat decoded) 4 = [Vec3 0 1 2, Vec3 3 3 0])"
proof -
  have h1: "(2::int) \<le> 4" by simp
  have h2: "list_all (pred_vec3 (\<lambda>q. 0 \<le> q \<and> q \<le> (4::int) - 1)) [Vec3 0 1 2, Vec3 3 3 0]"
    by simp
  from h1 h2 encode_decode_fixed_point [OF h1 h2] show ?thesis by blast
qed

section \<open>Quantizer: bin counts below 2\<close>

lemma round_even_minus: "round_even (- z) = - round_even z"
proof (cases "z = of_int \<lfloor>z\<rfloor>")
  case True
  then obtain k where "z = of_int k" ..
  then show ?thesis by (simp add: round_even_of_int flip: of_int_minus)
next
  case False
  then have fl: "\<lfloor>- z\<rfloor> = - \<lfloor>z\<rfloor> - 1" by linarith
  have "of_int \<lfloor>z\<rfloor> \<le> z" "z < of_int \<lfloor>z\<rfloor> + 1" by linarith+
  with False have "of_int \<lfloor>z\<rfloor> < z" by linarith
  then show ?thesis
    unfolding round_even_def Let_def fl by (auto simp: field_simps)
qed

lemma binary64_round_minus: "binary64_round (- x) = np_neg (binary64_round x)"
proof (cases "x = 0")
  case True
  then show ?thesis by (simp add: binary64_round_zero)
next
  case False
  then show ?thesis
    by (simp add: binary64_round_def Let_def round_even_minus)
qed

lemma rnd_of_int_neg:
  assumes "- (2 ^ 53) < k" "k \<le> 0"
  shows "rnd ar (of_int k) = Finite (of_int k)"
proof -
  have "rnd ar (of_int (- k)) = Finite (of_int (- k))"
    using assms by (intro rnd_of_int) simp_all
  then have pos: "rnd ar (- of_int k) = Finite (- of_int k)" by simp
  show ?thesis
  proof (cases ar)
    case Ideal
    then show ?thesis by simp
  next
    case Machine
    have "binary64_round (of_int k) = np_neg (binary64_round (- of_int k))"
      using binary64_round_minus [of "- of_int k"] by simp
    with pos Machine show ?thesis by simp
  qed
qed

lemma binary64_round_one: "binary64_round 1 = Finite 1"
  by (subst binary64_round_eval [of 0]) (simp_all add: pow2_def round_even_def)

lemma rnd_one: "rnd ar 1 = Finite 1"
  by (cases ar) (simp_all add: binary64_round_one)

lemma quantize_elem_small_bins: "bins < 2 \<Longrightarrow> quantize_elem ar x bins = bins - 1"
  by (simp add: quantize_elem_def np_clip_def Let_def)

lemma dequantize_elem_bins_one: "dequantize_elem ar 0 1 = NaN"
  by (simp add: dequantize_elem_def rnd_zero)

lemma dequantize_elem_nonpositive_bins:
  assumes "bins \<le> 0" "ar = Ideal \<or> - (2 ^ 53) < bins"
  shows "dequantize_elem ar (bins - 1) bins = Finite 1"
proof -
  have nz: "(of_int (bins - 1) :: real) \<noteq> 0" using assms(1) by simp
  have "rnd ar (of_int (bins - 1)) = Finite (of_int (bins - 1))"
  proof (cases "ar = Ideal")
    case True
    then show ?thesis by simp
  next
    case False
    with assms(2) have "- (2 ^ 53) < bins" by simp
    then have "- (2 ^ 53) < bins - 1 \<or> bins - 1 = - (2 ^ 53)" by linarith
    then show ?thesis
    proof
      assume "- (2 ^ 53) < bins - 1"
      then show ?thesis using assms(1) by (intro rnd_of_int_neg) simp_all
    next
      assume eq: "bins - 1 = - (2 ^ 53)"
      have "binary64_round (- 9007199254740992) = Finite (- 9007199254740992)"
        by (subst binary64_round_eval [of 53]) (simp_all add: pow2_def round_even_def)
      then show ?thesis unfolding eq by (cases ar) simp_all
    qed
  qed
  then show ?thesis
    unfolding dequantize_elem_def Let_def using nz by (simp add: rnd_one)
qed

text \<open>
  \<^bold>\<open>C3\<close> (as amended). The program has no check of \<open>bins\<close> and no configuration error: for
  \<open>bins < 2\<close> both functions return normally. \<open>quantize\<close> returns \<open>bins - 1\<close> in every
  component (0 when \<open>bins = 1\<close>), and \<open>dequantize\<close> of that output is \<open>nan\<close> in every component
  when \<open>bins = 1\<close> (the silent \<open>0 / 0\<close>) and 1 in every component when \<open>bins \<le> 0\<close>. This holds
  in exact arithmetic for every such \<open>bins\<close>, and in the machine arithmetic for
  \<open>bins > -2^53\<close>.
\<close>

theorem quantizer_small_bins:
  assumes "bins < 2"
  shows "quantize ar normalized bins = map (\<lambda>_. Vec3 (bins - 1) (bins - 1) (bins - 1)) normalized
         \<and> (ar = Ideal \<or> - (2 ^ 53) < bins \<longrightarrow>
              dequantize ar (quantize ar normalized bins) bins
                = map (\<lambda>_. if bins = 1 then Vec3 NaN NaN NaN
                            else Vec3 (Finite 1) (Finite 1) (Finite 1)) normalized)"
proof (intro conjI impI)
  have row: "map_vec3 (\<lambda>x. quantize_elem ar x bins) p = Vec3 (bins - 1) (bins - 1) (bins - 1)" for p
    using assms by (cases p) (simp add: quantize_elem_small_bins)
  show q: "quantize ar normalized bins = map (\<lambda>_. Vec3 (bins - 1) (bins - 1) (bins - 1)) normalized"
    by (simp add: quantize_def row)
  assume ok: "ar = Ideal \<or> - (2 ^ 53) < bins"
  have d: "dequantize_elem ar (bins - 1) bins = (if bins = 1 then NaN else Finite 1)"
  proof (cases "bins = 1")
    case True
    then show ?thesis by (simp add: dequantize_elem_bins_one)
  next
    case False
    with assms have "bins \<le> 0" by simp
    then show ?thesis using ok False by (simp add: dequantize_elem_nonpositive_bins)
  qed
  show "dequantize ar (quantize ar normalized bins) bins
          = map (\<lambda>_. if bins = 1 then Vec3 NaN NaN NaN
                      else Vec3 (Finite 1) (Finite 1) (Finite 1)) normalized"
    unfolding q by (simp add: dequantize_def d comp_def)
qed

theorem quantizer_small_bins_witness:
  "(0::int) < 2
   \<and> quantize Machine (to_npfloat [Vec3 0 (1/4) 1, Vec3 (1/2) (1/2) (1/3)]) 0
       = [Vec3 (-1) (-1) (-1), Vec3 (-1) (-1) (-1)]
   \<and> dequantize Machine (quantize Machine (to_npfloat [Vec3 0 (1/4) 1, Vec3 (1/2) (1/2) (1/3)]) 0) 0
       = [Vec3 (Finite 1) (Finite 1) (Finite 1), Vec3 (Finite 1) (Finite 1) (Finite 1)]"
proof -
  have h: "(0::int) < 2" by simp
  have ok: "Machine = Ideal \<or> - (2 ^ 53) < (0::int)" by simp
  from quantizer_small_bins [OF h, of Machine "to_npfloat [Vec3 0 (1/4) 1, Vec3 (1/2) (1/2) (1/3)]"] ok
  have "quantize Machine (to_npfloat [Vec3 0 (1/4) 1, Vec3 (1/2) (1/2) (1/3)]) 0
          = map (\<lambda>_. Vec3 (0 - 1) (0 - 1) (0 - 1)) (to_npfloat [Vec3 0 (1/4) 1, Vec3 (1/2) (1/2) (1/3)])"
    and "dequantize Machine (quantize Machine (to_npfloat [Vec3 0 (1/4) 1, Vec3 (1/2) (1/2) (1/3)]) 0) 0
          = map (\<lambda>_. if (0::int) = 1 then Vec3 NaN NaN NaN else Vec3 (Finite 1) (Finite 1) (Finite 1))
              (to_npfloat [Vec3 0 (1/4) 1, Vec3 (1/2) (1/2) (1/3)])"
    by blast+
  then show ?thesis by (simp add: to_npfloat_def)
qed

theorem quantizer_bins_one_counterexample:
  "quantize Machine (to_npfloat [Vec3 (1/2) 0 1]) 1 = [Vec3 0 0 0]
   \<and> dequantize Machine (quantize Machine (to_npfloat [Vec3 (1/2) 0 1]) 1) 1 = [Vec3 NaN NaN NaN]
   \<and> dequantize Machine [Vec3 3 (-2) 0] 1 = [Vec3 PosInf NegInf NaN]
   \<and> quantize Ideal (to_npfloat [Vec3 (1/2) 0 1]) 1 = [Vec3 0 0 0]
   \<and> dequantize Ideal (quantize Ideal (to_npfloat [Vec3 (1/2) 0 1]) 1) 1 = [Vec3 NaN NaN NaN]
   \<and> dequantize Ideal [Vec3 3 (-2) 0] 1 = [Vec3 PosInf NegInf NaN]"
proof -
  have r3: "binary64_round 3 = Finite 3"
    by (subst binary64_round_eval [of 1]) (simp_all add: pow2_def round_even_def)
  have r2: "binary64_round (- 2) = Finite (- 2)"
    by (subst binary64_round_eval [of 1]) (simp_all add: pow2_def round_even_def)
  show ?thesis
    by (simp add: quantize_def dequantize_def quantize_elem_def dequantize_elem_def np_clip_def
        to_npfloat_def binary64_round_zero r3 r2)
qed

section \<open>Normalization: reductions\<close>

lemma amin_axis0_coord:
  assumes "amin_axis0 vertices = Inr lo"
  shows "coord a lo = Min (coord a ` set vertices)"
proof (cases vertices)
  case Nil
  with assms show ?thesis by simp
next
  case (Cons v vs)
  with assms have "coord a lo = fold min (map (coord a) vs) (coord a v)"
    by (auto simp: coord_fold_zip)
  also have "\<dots> = Min (set (coord a v # map (coord a) vs))"
    by (rule Min.set_eq_fold [symmetric])
  finally show ?thesis using Cons by simp
qed

lemma amax_axis0_coord:
  assumes "amax_axis0 vertices = Inr hi"
  shows "coord a hi = Max (coord a ` set vertices)"
proof (cases vertices)
  case Nil
  with assms show ?thesis by simp
next
  case (Cons v vs)
  with assms have "coord a hi = fold max (map (coord a) vs) (coord a v)"
    by (auto simp: coord_fold_zip)
  also have "\<dots> = Max (set (coord a v # map (coord a) vs))"
    by (rule Max.set_eq_fold [symmetric])
  finally show ?thesis using Cons by simp
qed

lemma amin_axis0_le:
  "amin_axis0 vertices = Inr lo \<Longrightarrow> p \<in> set vertices \<Longrightarrow> coord a lo \<le> coord a p"
  by (simp add: amin_axis0_coord)

lemma amax_axis0_ge:
  "amax_axis0 vertices = Inr hi \<Longrightarrow> p \<in> set vertices \<Longrightarrow> coord a p \<le> coord a hi"
  by (simp add: amax_axis0_coord)

lemma amin_axis0_nonempty: "vertices \<noteq> [] \<Longrightarrow> \<exists>lo. amin_axis0 vertices = Inr lo"
  by (cases vertices) simp_all

lemma amax_axis0_nonempty: "vertices \<noteq> [] \<Longrightarrow> \<exists>hi. amax_axis0 vertices = Inr hi"
  by (cases vertices) simp_all

lemma normalize_minmax_nonempty:
  assumes "amin_axis0 vertices = Inr lo" "amax_axis0 vertices = Inr hi"
  shows "normalize_minmax ar vertices =
           Inr (map (\<lambda>v. vec3_zip (np_div ar) (vec3_zip (np_sub ar) v (map_vec3 Finite lo))
                            (minmax_denom ar lo hi))
                    (to_npfloat vertices),
                MinMaxMeta lo hi)"
  by (simp add: normalize_minmax_def assms)

text \<open>
  \<^bold>\<open>C6.\<close> For every non-empty buffer whose vertices all have the same value on an axis
  (so that \<open>vmax = vmin\<close> there), in either arithmetic, \<open>normalize_minmax\<close> raises nothing:
  the denominator it divides by is forced to 1 on that axis, and the axis is the finite
  value 0 in every normalized vertex.
\<close>

theorem minmax_degenerate_axis:
  assumes "vertices \<noteq> []"
    and "list_all (\<lambda>p. coord a p = c) vertices"
  shows "\<exists>normalized vmin vmax.
           normalize_minmax ar vertices = Inr (normalized, MinMaxMeta vmin vmax)
           \<and> coord a vmax = coord a vmin
           \<and> coord a (minmax_denom ar vmin vmax) = Finite 1
           \<and> length normalized = length vertices
           \<and> list_all (\<lambda>p. coord a p = Finite 0) normalized"
proof -
  obtain lo where lo: "amin_axis0 vertices = Inr lo"
    using amin_axis0_nonempty [OF assms(1)] by blast
  obtain hi where hi: "amax_axis0 vertices = Inr hi"
    using amax_axis0_nonempty [OF assms(1)] by blast
  let ?d = "minmax_denom ar lo hi"
  let ?n = "map (\<lambda>v. vec3_zip (np_div ar) (vec3_zip (np_sub ar) v (map_vec3 Finite lo)) ?d)
                (to_npfloat vertices)"
  have all: "coord a p = c" if "p \<in> set vertices" for p
    using assms(2) that by (simp add: list_all_iff)
  have img: "coord a ` set vertices = {c}"
    using assms(1) all by (cases vertices) auto
  have lo_c: "coord a lo = c" using amin_axis0_coord [OF lo, of a] img by simp
  have hi_c: "coord a hi = c" using amax_axis0_coord [OF hi, of a] img by simp
  have fwd: "normalize_minmax ar vertices = Inr (?n, MinMaxMeta lo hi)"
    using lo hi by (rule normalize_minmax_nonempty)
  have den: "coord a ?d = Finite 1"
    by (simp add: minmax_denom_def fix_denom_def coord_map_vec3 coord_vec3_zip lo_c hi_c
        np_sub_Finite rnd_zero)
  have "coord a (vec3_zip (np_div ar) (vec3_zip (np_sub ar) (map_vec3 Finite p) (map_vec3 Finite lo)) ?d)
          = Finite 0" if "p \<in> set vertices" for p
    using all [OF that]
    by (simp add: coord_vec3_zip coord_map_vec3 den lo_c np_sub_Finite rnd_zero)
  then have zero: "list_all (\<lambda>p. coord a p = Finite 0) ?n"
    by (simp add: list_all_iff to_npfloat_def)
  have len: "length ?n = length vertices" by (simp add: to_npfloat_def)
  from fwd den zero len lo_c hi_c show ?thesis by simp
qed

theorem minmax_degenerate_axis_witness:
  "[Vec3 0 5 0, Vec3 2 5 1] \<noteq> ([] :: real vec3 list)
   \<and> list_all (\<lambda>p. coord AxisY p = (5::real)) [Vec3 0 5 0, Vec3 2 5 1]
   \<and> (\<exists>normalized vmin vmax.
         normalize_minmax Machine [Vec3 0 5 0, Vec3 2 5 1] = Inr (normalized, MinMaxMeta vmin vmax)
         \<and> coord AxisY vmax = coord AxisY vmin
         \<and> coord AxisY (minmax_denom Machine vmin vmax) = Finite 1
         \<and> length normalized = length [Vec3 0 5 0, Vec3 2 5 (1::real)]
         \<and> list_all (\<lambda>p. coord AxisY p = Finite 0) normalized)"
proof -
  have h1: "[Vec3 0 5 0, Vec3 2 5 1] \<noteq> ([] :: real vec3 list)" by simp
  have h2: "list_all (\<lambda>p. coord AxisY p = (5::real)) [Vec3 0 5 0, Vec3 2 5 1]" by simp
  from h1 h2 minmax_degenerate_axis [OF h1 h2] show ?thesis by blast
qed

section \<open>Normalization: round trip in exact arithmetic\<close>

lemma minmax_row_roundtrip:
  assumes "\<And>a. coord a lo \<le> coord a p" "\<And>a. coord a p \<le> coord a hi"
  shows "vec3_zip (np_add Ideal)
           (vec3_zip (np_mul Ideal)
              (vec3_zip (np_div Ideal)
                 (vec3_zip (np_sub Ideal) (map_vec3 Finite p) (map_vec3 Finite lo))
                 (minmax_denom Ideal lo hi))
              (vec3_zip (np_sub Ideal) (map_vec3 Finite hi) (map_vec3 Finite lo)))
           (map_vec3 Finite lo) = map_vec3 Finite p"
proof (rule vec3_eqI)
  fix a
  show "coord a (vec3_zip (np_add Ideal)
           (vec3_zip (np_mul Ideal)
              (vec3_zip (np_div Ideal)
                 (vec3_zip (np_sub Ideal) (map_vec3 Finite p) (map_vec3 Finite lo))
                 (minmax_denom Ideal lo hi))
              (vec3_zip (np_sub Ideal) (map_vec3 Finite hi) (map_vec3 Finite lo)))
           (map_vec3 Finite lo)) = coord a (map_vec3 Finite p)"
    using assms(1) [of a] assms(2) [of a]
    by (auto simp: coord_vec3_zip coord_map_vec3 minmax_denom_def fix_denom_def np_sub_Finite)
qed

lemma minmax_roundtrip:
  assumes "vertices \<noteq> []"
  shows "\<exists>normalized m. normalize_minmax Ideal vertices = Inr (normalized, m) \<and>
           denormalize_minmax Ideal normalized m = Inr (to_npfloat vertices)"
proof -
  obtain lo where lo: "amin_axis0 vertices = Inr lo"
    using amin_axis0_nonempty [OF assms] by blast
  obtain hi where hi: "amax_axis0 vertices = Inr hi"
    using amax_axis0_nonempty [OF assms] by blast
  let ?n = "map (\<lambda>v. vec3_zip (np_div Ideal) (vec3_zip (np_sub Ideal) v (map_vec3 Finite lo))
                        (minmax_denom Ideal lo hi))
                (to_npfloat vertices)"
  have fwd: "normalize_minmax Ideal vertices = Inr (?n, MinMaxMeta lo hi)"
    using lo hi by (rule normalize_minmax_nonempty)
  have "denormalize_minmax Ideal ?n (MinMaxMeta lo hi) = Inr (to_npfloat vertices)"
    using amin_axis0_le [OF lo] amax_axis0_ge [OF hi]
    by (simp add: denormalize_minmax_def to_npfloat_def minmax_row_roundtrip)
  with fwd show ?thesis by blast
qed

section \<open>Normalization: the unit sphere in exact arithmetic\<close>

lemma foldl_np_add_Finite:
  "foldl (np_add Ideal) (Finite s) (map Finite xs) = Finite (s + sum_list xs)"
  by (induction xs arbitrary: s) (simp_all add: add.assoc)

lemma np_sum_Finite: "np_sum Ideal (map Finite xs) = Finite (sum_list xs)"
  using foldl_np_add_Finite [of 0 xs] by (simp add: np_sum_def)

lemma np_mean_Finite:
  "xs \<noteq> [] \<Longrightarrow> np_mean Ideal (map Finite xs) = Finite (mean_spec xs)"
  by (simp add: np_mean_def np_sum_Finite mean_spec_def)

lemma np_mean_axis0_Finite:
  fixes g :: "real \<Rightarrow> real"
  assumes "rows \<noteq> []"
  shows "np_mean_axis0 Ideal (map (map_vec3 (\<lambda>d. Finite (g d))) rows)
           = Vec3 (Finite (mean_spec (map g (map (coord AxisX) rows))))
                  (Finite (mean_spec (map g (map (coord AxisY) rows))))
                  (Finite (mean_spec (map g (map (coord AxisZ) rows))))"
proof -
  have ne: "map g (map sel rows) \<noteq> []" for sel :: "real vec3 \<Rightarrow> real"
    using assms by simp
  have x: "map vx (map (map_vec3 (\<lambda>d. Finite (g d))) rows)
             = map Finite (map g (map (coord AxisX) rows))"
    by (simp add: vec3.map_sel)
  have y: "map vy (map (map_vec3 (\<lambda>d. Finite (g d))) rows)
             = map Finite (map g (map (coord AxisY) rows))"
    by (simp add: vec3.map_sel)
  have z: "map vz (map (map_vec3 (\<lambda>d. Finite (g d))) rows)
             = map Finite (map g (map (coord AxisZ) rows))"
    by (simp add: vec3.map_sel)
  show ?thesis
    unfolding np_mean_axis0_def x y z by (simp only: np_mean_Finite [OF ne])
qed

lemma centroid_finite:
  assumes "vertices \<noteq> []"
  shows "\<exists>ce. np_mean_axis0 Ideal (to_npfloat vertices) = map_vec3 Finite ce"
proof -
  have "np_mean_axis0 Ideal (map (map_vec3 (\<lambda>d. Finite (id d))) vertices)
          = map_vec3 Finite
              (Vec3 (mean_spec (map id (map (coord AxisX) vertices)))
                    (mean_spec (map id (map (coord AxisY) vertices)))
                    (mean_spec (map id (map (coord AxisZ) vertices))))"
    using np_mean_axis0_Finite [OF assms, of id] by simp
  then show ?thesis unfolding to_npfloat_def id_def by blast
qed

lemma norm3_Finite: "\<exists>r. norm3 Ideal (map_vec3 Finite p) = Finite r"
proof (cases p)
  case (Vec3 a b c)
  show ?thesis using Vec3 by (simp add: np_sum_def not_less)
qed

lemma fold_np_maximum_Finite:
  "fold np_maximum (map Finite xs) (Finite x) = Finite (fold max xs x)"
  by (induction xs arbitrary: x) simp_all

lemma amax_Finite: "xs \<noteq> [] \<Longrightarrow> \<exists>m. amax (map Finite xs) = Inr (Finite m)"
  by (cases xs) (simp_all add: fold_np_maximum_Finite)

lemma sphere_row_roundtrip:
  assumes "d \<noteq> 0"
  shows "vec3_zip (np_add Ideal)
           (map_vec3 (\<lambda>c. np_mul Ideal c (Finite d))
              (map_vec3 (\<lambda>c. np_sub Ideal (np_mul Ideal c (Finite 2)) (Finite 1))
                 (map_vec3 (\<lambda>c. np_div Ideal (np_add Ideal c (Finite 1)) (Finite 2))
                    (map_vec3 (\<lambda>c. np_div Ideal c (Finite d))
                       (vec3_zip (np_sub Ideal) (map_vec3 Finite p) (map_vec3 Finite ce))))))
           (map_vec3 Finite ce) = map_vec3 Finite p"
  using assms by (cases p; cases ce) (simp add: np_sub_Finite field_simps)

lemma sphere_roundtrip:
  assumes "vertices \<noteq> []"
  shows "\<exists>normalized m. normalize_unit_sphere Ideal vertices = Inr (normalized, m) \<and>
           denormalize_unit_sphere Ideal normalized m = Inr (to_npfloat vertices)"
proof -
  obtain ce where ce: "np_mean_axis0 Ideal (to_npfloat vertices) = map_vec3 Finite ce"
    using centroid_finite [OF assms] by blast
  let ?sh = "map (\<lambda>v. vec3_zip (np_sub Ideal) v (map_vec3 Finite ce)) (to_npfloat vertices)"
  define dist where "dist p = (case norm3 Ideal (vec3_zip (np_sub Ideal) (map_vec3 Finite p)
                                 (map_vec3 Finite ce)) of Finite r \<Rightarrow> r | _ \<Rightarrow> 0)" for p
  have "vec3_zip (np_sub Ideal) (map_vec3 Finite p) (map_vec3 Finite ce)
          = map_vec3 Finite (vec3_zip (-) p ce)" for p
    by (cases p; cases ce) (simp add: np_sub_Finite)
  then have "norm3 Ideal (vec3_zip (np_sub Ideal) (map_vec3 Finite p) (map_vec3 Finite ce))
               = Finite (dist p)" for p
    using norm3_Finite [of "vec3_zip (-) p ce"] by (auto simp: dist_def)
  then have dists: "map (norm3 Ideal) ?sh = map Finite (map dist vertices)"
    by (simp add: to_npfloat_def)
  obtain m0 where m0: "amax (map (norm3 Ideal) ?sh) = Inr (Finite m0)"
    unfolding dists using amax_Finite [of "map dist vertices"] assms by auto
  define d where "d = (if m0 = 0 then 1 else m0)"
  have d: "d \<noteq> 0" by (simp add: d_def)
  have maxd: "(if Finite m0 = Finite 0 then Finite 1 else Finite m0) = Finite d"
    by (simp add: d_def)
  let ?n = "map (map_vec3 (\<lambda>c. np_div Ideal (np_add Ideal c (Finite 1)) (Finite 2)))
              (map (map_vec3 (\<lambda>c. np_div Ideal c (Finite d))) ?sh)"
  have fwd: "normalize_unit_sphere Ideal vertices = Inr (?n, SphereMeta (map_vec3 Finite ce) (Finite d))"
    unfolding normalize_unit_sphere_def Let_def ce m0 sum.case maxd by (rule refl)
  have "denormalize_unit_sphere Ideal ?n (SphereMeta (map_vec3 Finite ce) (Finite d))
          = Inr (to_npfloat vertices)"
    unfolding denormalize_unit_sphere_def Let_def meta.case to_npfloat_def
    by (simp add: sphere_row_roundtrip [OF d])
  with fwd show ?thesis by blast
qed

text \<open>
  \<^bold>\<open>C1\<close> (as amended). In exact arithmetic, for each of the two strategies that
  \<open>process_mesh\<close> runs (min-max and unit sphere) and every buffer with at least one vertex,
  the forward transform succeeds, and the inverse transform applied to its output with the
  metadata of that same call, no quantization in between, returns the buffer exactly.
  A non-degenerate buffer is in particular non-empty; the degenerate fallbacks
  (denominator 1) are covered as well.
\<close>

theorem roundtrip_without_quantization:
  assumes "vertices \<noteq> []"
  shows "list_all (\<lambda>(method_name, normalize_fn, denormalize_fn).
           \<exists>normalized m. normalize_fn vertices = Inr (normalized, m)
              \<and> denormalize_fn normalized m = Inr (to_npfloat vertices)) (methods Ideal)"
  using assms by (simp add: methods_def minmax_roundtrip sphere_roundtrip)

theorem roundtrip_without_quantization_witness:
  "[Vec3 0 0 0, Vec3 2 4 1, Vec3 1 1 (1/2)] \<noteq> ([] :: real vec3 list)
   \<and> list_all (\<lambda>(method_name, normalize_fn, denormalize_fn).
         \<exists>normalized m. normalize_fn [Vec3 0 0 0, Vec3 2 4 1, Vec3 1 1 (1/2)] = Inr (normalized, m)
            \<and> denormalize_fn normalized m
                = Inr (to_npfloat [Vec3 0 0 0, Vec3 2 4 1, Vec3 1 1 (1/2)])) (methods Ideal)"
proof -
  have h: "[Vec3 0 0 0, Vec3 2 4 1, Vec3 1 1 (1/2)] \<noteq> ([] :: real vec3 list)" by simp
  from h roundtrip_without_quantization [OF h] show ?thesis by (rule conjI)
qed

text \<open>The claim as stated is about the program's \<^verbatim>\<open>float64\<close> values and a relative tolerance
  such as \<open>10^-9\<close>. In the machine arithmetic the min-max round trip of the non-degenerate
  buffer with rows \<open>-10^20\<close>, \<open>10^20\<close> and 1 returns 0 for the row 1: \<open>1 + 10^20\<close> rounds to
  \<open>10^20\<close>.\<close>

theorem roundtrip_binary64_counterexample:
  "normalize_minmax Machine
     [Vec3 (- 100000000000000000000) (- 100000000000000000000) (- 100000000000000000000),
      Vec3 100000000000000000000 100000000000000000000 100000000000000000000,
      Vec3 1 1 1]
     = Inr (to_npfloat [Vec3 0 0 0, Vec3 1 1 1, Vec3 (1/2) (1/2) (1/2)],
            MinMaxMeta
              (Vec3 (- 100000000000000000000) (- 100000000000000000000) (- 100000000000000000000))
              (Vec3 100000000000000000000 100000000000000000000 100000000000000000000))
   \<and> denormalize_minmax Machine (to_npfloat [Vec3 0 0 0, Vec3 1 1 1, Vec3 (1/2) (1/2) (1/2)])
       (MinMaxMeta
          (Vec3 (- 100000000000000000000) (- 100000000000000000000) (- 100000000000000000000))
          (Vec3 100000000000000000000 100000000000000000000 100000000000000000000))
     = Inr (to_npfloat
         [Vec3 (- 100000000000000000000) (- 100000000000000000000) (- 100000000000000000000),
          Vec3 100000000000000000000 100000000000000000000 100000000000000000000,
          Vec3 0 0 0])
   \<and> \<not> \<bar>(0::real) - 1\<bar> \<le> 1 / 10 ^ 9 * \<bar>1\<bar>"
proof -
  have a: "binary64_round 200000000000000000000 = Finite 200000000000000000000"
    by (subst binary64_round_eval [of 67]) (simp_all add: pow2_def round_even_def)
  have b: "binary64_round 100000000000000000001 = Finite 100000000000000000000"
    by (subst binary64_round_eval [of 66]) (simp_all add: pow2_def round_even_def)
  have c: "binary64_round 100000000000000000000 = Finite 100000000000000000000"
    by (subst binary64_round_eval [of 66]) (simp_all add: pow2_def round_even_def)
  have d: "binary64_round (- 100000000000000000000) = Finite (- 100000000000000000000)"
    by (subst binary64_round_eval [of 66]) (simp_all add: pow2_def round_even_def)
  have e: "binary64_round (1 / 2) = Finite (1 / 2)"
    by (subst binary64_round_eval [of "- 1"]) (simp_all add: pow2_def round_even_def)
  have f: "binary64_round 1 = Finite 1"
    by (subst binary64_round_eval [of 0]) (simp_all add: pow2_def round_even_def)
  show ?thesis
    by (simp add: normalize_minmax_def denormalize_minmax_def minmax_denom_def fix_denom_def
        to_npfloat_def np_sub_def binary64_round_zero a b c d e f)
qed

section \<open>Error analysis: means of finite columns\<close>

lemma broadcast_sub_same_length:
  "length a = length b \<Longrightarrow> broadcast_sub ar a b = Inr (map2 (vec3_zip (np_sub ar)) a b)"
  by (simp add: broadcast_sub_def)

lemma vec3_zip_np_sub_Finite:
  "vec3_zip (np_sub Ideal) (map_vec3 Finite p) (map_vec3 Finite q)
     = map_vec3 Finite (vec3_zip (-) p q)"
  by (cases p; cases q) (simp add: np_sub_Finite)

lemma map2_np_sub_Finite:
  "map2 (vec3_zip (np_sub Ideal)) (map (map_vec3 Finite) a) (map (map_vec3 Finite) b)
     = map (map_vec3 Finite) (map2 (vec3_zip (-)) a b)"
proof (induction a arbitrary: b)
  case Nil
  show ?case by simp
next
  case (Cons p a)
  then show ?case by (cases b) (simp_all add: vec3_zip_np_sub_Finite)
qed

lemma diff_column_map2:
  "map (coord a) (map2 (vec3_zip (-)) original reconstructed)
     = diff_column a original reconstructed"
  by (simp add: diff_column_def coord_vec3_zip split_def)

lemma np_mean_three:
  "np_mean Ideal [Finite a, Finite b, Finite c] = Finite (mean_spec [a, b, c])"
  using np_mean_Finite [of "[a, b, c]"] by simp

lemma compute_errors_finite:
  assumes "length original = length reconstructed" "original \<noteq> []"
  shows "compute_errors Ideal (to_npfloat original) (to_npfloat reconstructed) =
           Inr \<lparr>mse_per_axis =
                   Vec3 (Finite (mean_spec (map (\<lambda>d. d * d) (diff_column AxisX original reconstructed))))
                        (Finite (mean_spec (map (\<lambda>d. d * d) (diff_column AxisY original reconstructed))))
                        (Finite (mean_spec (map (\<lambda>d. d * d) (diff_column AxisZ original reconstructed)))),
                 mae_per_axis =
                   Vec3 (Finite (mean_spec (map abs (diff_column AxisX original reconstructed))))
                        (Finite (mean_spec (map abs (diff_column AxisY original reconstructed))))
                        (Finite (mean_spec (map abs (diff_column AxisZ original reconstructed)))),
                 mse = Finite (mean_spec
                         [mean_spec (map (\<lambda>d. d * d) (diff_column AxisX original reconstructed)),
                          mean_spec (map (\<lambda>d. d * d) (diff_column AxisY original reconstructed)),
                          mean_spec (map (\<lambda>d. d * d) (diff_column AxisZ original reconstructed))]),
                 mae = Finite (mean_spec
                         [mean_spec (map abs (diff_column AxisX original reconstructed)),
                          mean_spec (map abs (diff_column AxisY original reconstructed)),
                          mean_spec (map abs (diff_column AxisZ original reconstructed))])\<rparr>"
proof -
  let ?d = "map2 (vec3_zip (-)) original reconstructed"
  have ne: "?d \<noteq> []" using assms by (cases original; cases reconstructed) simp_all
  have sub: "broadcast_sub Ideal (to_npfloat original) (to_npfloat reconstructed)
               = Inr (map (map_vec3 Finite) ?d)"
    using assms(1) by (simp add: broadcast_sub_same_length to_npfloat_def map2_np_sub_Finite)
  have sq: "map (map_vec3 (\<lambda>d. np_mul Ideal d d)) (map (map_vec3 Finite) ?d)
              = map (map_vec3 (\<lambda>d. Finite (d * d))) ?d"
    by (simp add: vec3.map_comp comp_def)
  have ab: "map (map_vec3 np_abs) (map (map_vec3 Finite) ?d)
              = map (map_vec3 (\<lambda>d. Finite \<bar>d\<bar>)) ?d"
    by (simp add: vec3.map_comp comp_def)
  show ?thesis
    unfolding compute_errors_def sub sum.case Let_def sq ab
      np_mean_axis0_Finite [OF ne] diff_column_map2 vec3.sel np_mean_three
    by (rule refl)
qed

lemma compute_errors_empty:
  "compute_errors ar [] [] =
     Inr \<lparr>mse_per_axis = Vec3 NaN NaN NaN, mae_per_axis = Vec3 NaN NaN NaN,
           mse = NaN, mae = NaN\<rparr>"
  by (simp add: compute_errors_def broadcast_sub_def np_mean_axis0_def np_mean_def np_sum_def
      Let_def)

text \<open>
  \<^bold>\<open>C5.\<close> For two finite buffers of the same length \<open>N \<ge> 1\<close>, in exact arithmetic,
  \<open>compute_errors\<close> returns the report of the specification: per axis the mean of the
  squared differences and the mean of the absolute differences, and as scalars the mean of
  the three per-axis means. For the original \<open>[[0,0,0],[2,0,0]]\<close> and the reconstruction
  \<open>[[0,0,0],[0,0,0]]\<close> this is \<open>mse_per_axis = [2, 0, 0]\<close>, \<open>mae_per_axis = [1, 0, 0]\<close>,
  \<open>mse = 2/3\<close>, \<open>mae = 1/3\<close>.
\<close>

theorem compute_errors_formula:
  assumes "length original = length reconstructed" and "original \<noteq> []"
  shows "compute_errors Ideal (to_npfloat original) (to_npfloat reconstructed)
           = Inr (report_spec original reconstructed)
         \<and> compute_errors Ideal (to_npfloat [Vec3 0 0 0, Vec3 2 0 0])
             (to_npfloat [Vec3 0 0 0, Vec3 0 0 0])
           = Inr \<lparr>mse_per_axis = Vec3 (Finite 2) (Finite 0) (Finite 0),
                   mae_per_axis = Vec3 (Finite 1) (Finite 0) (Finite 0),
                   mse = Finite (2/3), mae = Finite (1/3)\<rparr>"
proof
  show "compute_errors Ideal (to_npfloat original) (to_npfloat reconstructed)
          = Inr (report_spec original reconstructed)"
    unfolding compute_errors_finite [OF assms] report_spec_def mse_axis_spec_def
      mae_axis_spec_def power2_eq_square
    by (rule refl)
  have "compute_errors Ideal (to_npfloat [Vec3 0 0 0, Vec3 2 0 0])
          (to_npfloat [Vec3 0 0 0, Vec3 0 0 0])
          = Inr (report_spec [Vec3 0 0 0, Vec3 2 0 0] [Vec3 0 0 0, Vec3 0 0 0])"
    unfolding report_spec_def mse_axis_spec_def mae_axis_spec_def power2_eq_square
    by (rule compute_errors_finite) simp_all
  then show "compute_errors Ideal (to_npfloat [Vec3 0 0 0, Vec3 2 0 0])
          (to_npfloat [Vec3 0 0 0, Vec3 0 0 0])
          = Inr \<lparr>mse_per_axis = Vec3 (Finite 2) (Finite 0) (Finite 0),
                  mae_per_axis = Vec3 (Finite 1) (Finite 0) (Finite 0),
                  mse = Finite (2/3), mae = Finite (1/3)\<rparr>"
    by (simp add: report_spec_def mse_axis_spec_def mae_axis_spec_def mean_spec_def diff_column_def)
qed

theorem compute_errors_formula_witness:
  "length [Vec3 1 2 3, Vec3 3 2 (0::real)] = length [Vec3 0 2 1, Vec3 1 1 (1::real)]
   \<and> [Vec3 1 2 3, Vec3 3 2 (0::real)] \<noteq> []
   \<and> compute_errors Ideal (to_npfloat [Vec3 1 2 3, Vec3 3 2 0]) (to_npfloat [Vec3 0 2 1, Vec3 1 1 1])
       = Inr \<lparr>mse_per_axis = Vec3 (Finite (5/2)) (Finite (1/2)) (Finite (5/2)),
               mae_per_axis = Vec3 (Finite (3/2)) (Finite (1/2)) (Finite (3/2)),
               mse = Finite (11/6), mae = Finite (7/6)\<rparr>"
  using compute_errors_formula [of "[Vec3 1 2 3, Vec3 3 2 0]" "[Vec3 0 2 1, Vec3 1 1 1]"]
  by (simp add: report_spec_def mse_axis_spec_def mae_axis_spec_def mean_spec_def diff_column_def)

text \<open>
  \<^bold>\<open>C8\<close> (as amended). If \<open>compute_errors\<close> is called with two buffers of different lengths,
  neither of which has length 1, it fails: the subtraction raises numpy's \<^verbatim>\<open>ValueError\<close> and no
  report is returned. The claim as stated, for every pair of unequal lengths, is refuted
  below: a buffer of length 1 is broadcast against the other one.
\<close>

theorem compute_errors_length_mismatch:
  assumes "length original \<noteq> length reconstructed"
    and "length original \<noteq> 1" and "length reconstructed \<noteq> 1"
  shows "compute_errors ar original reconstructed = Inl ValueError"
  using assms by (simp add: compute_errors_def broadcast_sub_def)

theorem compute_errors_length_mismatch_witness:
  "length (to_npfloat [Vec3 0 0 0, Vec3 1 0 0]) \<noteq> length (to_npfloat [Vec3 0 0 0, Vec3 1 0 0, Vec3 2 2 2])
   \<and> length (to_npfloat [Vec3 0 0 0, Vec3 1 0 0]) \<noteq> 1
   \<and> length (to_npfloat [Vec3 0 0 0, Vec3 1 0 0, Vec3 2 2 2]) \<noteq> 1
   \<and> compute_errors Machine (to_npfloat [Vec3 0 0 0, Vec3 1 0 0])
        (to_npfloat [Vec3 0 0 0, Vec3 1 0 0, Vec3 2 2 2]) = Inl ValueError"
  using compute_errors_length_mismatch
    [of "to_npfloat [Vec3 0 0 0, Vec3 1 0 0]" "to_npfloat [Vec3 0 0 0, Vec3 1 0 0, Vec3 2 2 2]"
        Machine]
  by (simp add: to_npfloat_def)

theorem compute_errors_broadcast_counterexample:
  "length (to_npfloat [Vec3 1 1 1]) \<noteq> length (to_npfloat [Vec3 0 0 0, Vec3 1 0 0])
   \<and> compute_errors Ideal (to_npfloat [Vec3 1 1 1]) (to_npfloat [Vec3 0 0 0, Vec3 1 0 0])
       = Inr \<lparr>mse_per_axis = Vec3 (Finite (1/2)) (Finite 1) (Finite 1),
               mae_per_axis = Vec3 (Finite (1/2)) (Finite 1) (Finite 1),
               mse = Finite (5/6), mae = Finite (5/6)\<rparr>
   \<and> compute_errors Machine (to_npfloat [Vec3 1 1 1]) (to_npfloat [Vec3 0 0 0, Vec3 1 0 0])
       = Inr \<lparr>mse_per_axis = Vec3 (Finite (1/2)) (Finite 1) (Finite 1),
               mae_per_axis = Vec3 (Finite (1/2)) (Finite 1) (Finite 1),
               mse = Finite (7505999378950827 / 9007199254740992),
               mae = Finite (7505999378950827 / 9007199254740992)\<rparr>"
proof -
  have r1: "binary64_round 1 = Finite 1"
    by (subst binary64_round_eval [of 0]) (simp_all add: pow2_def round_even_def)
  have r2: "binary64_round 2 = Finite 2"
    by (subst binary64_round_eval [of 1]) (simp_all add: pow2_def round_even_def)
  have rh: "binary64_round (1 / 2) = Finite (1 / 2)"
    by (subst binary64_round_eval [of "- 1"]) (simp_all add: pow2_def round_even_def)
  have r32: "binary64_round (3 / 2) = Finite (3 / 2)"
    by (subst binary64_round_eval [of 0]) (simp_all add: pow2_def round_even_def)
  have r52: "binary64_round (5 / 2) = Finite (5 / 2)"
    by (subst binary64_round_eval [of 1]) (simp_all add: pow2_def round_even_def)
  have r56: "binary64_round (5 / 6) = Finite (7505999378950827 / 9007199254740992)"
    by (subst binary64_round_eval [of "- 1"]) (simp_all add: pow2_def round_even_def)
  show ?thesis
    by (simp add: compute_errors_def broadcast_sub_def to_npfloat_def np_mean_axis0_def
        np_mean_def np_sum_def np_sub_def Let_def binary64_round_zero r1 r2 rh r32 r52 r56)
qed

section \<open>Pipeline: the empty mesh\<close>

text \<open>
  \<^bold>\<open>C4\<close> (as amended). For an empty vertex buffer in a mesh that the loader reports as empty,
  \<open>process_mesh\<close> does not throw and short-circuits: the mesh is skipped, no strategy runs and
  no error report is produced.
\<close>

theorem empty_mesh_is_skipped:
  assumes "mesh_vertices m = []" and "mesh_is_empty m"
  shows "process_mesh ar m bins = Inr Skipped"
  using assms by (simp add: process_mesh_def)

theorem empty_mesh_is_skipped_witness:
  "mesh_vertices \<lparr>mesh_is_empty = True, mesh_vertices = [], mesh_faces = None\<rparr> = []
   \<and> mesh_is_empty \<lparr>mesh_is_empty = True, mesh_vertices = [], mesh_faces = None\<rparr>
   \<and> process_mesh Machine \<lparr>mesh_is_empty = True, mesh_vertices = [], mesh_faces = None\<rparr> 1024
       = Inr Skipped"
  using empty_mesh_is_skipped
    [of "\<lparr>mesh_is_empty = True, mesh_vertices = [], mesh_faces = None\<rparr>" Machine 1024]
  by simp

text \<open>The claim as stated asks for a report with \<open>mse = mae = 0\<close>. The pipeline returns no
  report for the empty mesh, and the error analysis applied to two empty buffers returns
  \<open>nan\<close>, the mean of an empty array, not 0.\<close>

theorem empty_mesh_report_counterexample:
  "process_mesh Machine \<lparr>mesh_is_empty = True, mesh_vertices = [], mesh_faces = Some []\<rparr> 1024
     = Inr Skipped
   \<and> compute_errors Machine (to_npfloat []) (to_npfloat [])
     = Inr \<lparr>mse_per_axis = Vec3 NaN NaN NaN, mae_per_axis = Vec3 NaN NaN NaN,
             mse = NaN, mae = NaN\<rparr>"
  by (simp add: process_mesh_def to_npfloat_def compute_errors_empty)

end
